theory Spec2Isabelle
  imports Complex_Main
begin

section \<open>The file transform cache: data model\<close>

text \<open>
  The class \<open>FileTransformCache\<close> is embedded as functions over an explicit state. What
  the class gets from outside (the file system, the resolver, the hash function, the path
  library, the clock, the number of CPUs and the replies of the worker processes) is a
  record of functions, \<open>env\<close>, passed to every operation.

  An \<open>async\<close> function is run as far as it can go: every call to the outside
  settles at once, with the value or error \<open>env\<close> gives. The promise an async function
  returns is therefore modelled by its settlement: \<open>Fulfilled v\<close>, \<open>Rejected e\<close>, or
  \<open>Pending\<close> when the task is parked in the worker wait queue, or awaits a promise that is
  itself pending. The continuation of a parked task is not run.
\<close>

record js_error =
  message :: string
  code :: "string option"

datatype 'a promise = Fulfilled 'a | Rejected js_error | Pending

text \<open>
  A resolve map is a plain object, made by the literal \<open>{}\<close>: its own properties, each a
  rewritten specifier or \<open>null\<close>, and its prototype, which is \<open>Object.prototype\<close> until
  an assignment replaces it by \<open>null\<close>.
\<close>

record ResolveMap =
  props :: "string \<rightharpoonup> string option"
  protoNull :: bool

type_synonym workerRef = nat
type_synonym recordRef = nat

text \<open>A message to a worker process: \<open>{ type, data }\<close>.\<close>

datatype msgdata =
    SourceData "string option" string bool
  | FlagData bool
  | MapData "ResolveMap option"

datatype message = Message (mtype: string) (mdata: msgdata)

text \<open>
  A message from a worker process: type \<open>error\<close> with its text, or any other type with its
  data, an object whose fields \<open>deps\<close>, \<open>source\<close> and \<open>sourceMap\<close> may each be missing.
\<close>

datatype replydata =
  ReplyData (deps_of: "string list option") (source_of: "string option")
    (sourceMap_of: "string option")

datatype reply = ErrorReply string | DataReply replydata

record FileTransformRecord =
  path :: string
  hashPromise :: "(ResolveMap option \<times> workerRef option) promise option"
  transformPromise :: "unit promise option"
  mtime :: "real option"
  isGlobalCache :: bool
  checkTime :: int
  originalSource :: "string option"
  originalSourceHash :: "string option"
  deps :: "string list option"
  dew :: bool
  fullHash :: "string option"
  source :: "string option"
  sourceMap :: "string option"
  watching :: bool

text \<open>
  The reply slot of a worker holds the callbacks of the promise that waits for the next
  reply; \<open>handler\<close> says which promise that is.
\<close>

datatype handler = AckHandler | DepsHandler | TransformHandler

record TransformWorker =
  record_w :: "recordRef option"
  msgResolve :: "handler option"
  msgReject :: "handler option"

text \<open>What a handle of the record store resolves to: a record, \<open>null\<close> or \<open>undefined\<close>.\<close>

datatype recval = RecordRef recordRef | VNull | VUndefined

text \<open>
  The resolver cache is opaque; only the two object literals the class assigns to it are
  told apart.
\<close>

datatype cacheBag = InitialBag | EmptyBag

text \<open>
  The state of one instance. Record objects are shared (the store's handles, the workers
  and the watchers point to them), so they live in \<open>heap\<close> and are referred to by address.
  A worker is referred to by its index in \<open>workers\<close>. A waiter of \<open>transformQueue\<close> is the
  closure \<open>worker => { worker.record = record; resolve(worker) }\<close>, kept as the record it
  captured. Four fields record effects: \<open>sent\<close> the messages sent to the worker processes,
  \<open>resumed\<close> the waiters whose promise was resolved with a worker, \<open>hashTimers\<close> the
  cleanup callbacks that \<open>doHash\<close> has scheduled and that have not fired, and
  \<open>cacheInterval\<close> the periodic timer with its period.
\<close>

record FileTransformCache =
  maxWatchCount :: int
  production :: bool
  records :: "string \<Rightarrow> recval promise option"
  publicDir :: string
  watching_c :: "recordRef list"
  workers :: "TransformWorker list"
  transformQueue :: "recordRef list"
  resolveCache :: cacheBag
  resolveEnv :: "bool \<times> bool"
  nextExpiry :: int
  cacheInterval :: "int option"
  cacheClearInterval :: int
  heap :: "recordRef \<Rightarrow> FileTransformRecord"
  nextRef :: recordRef
  sent :: "(workerRef \<times> message) list"
  resumed :: "(recordRef \<times> workerRef) list"
  hashTimers :: "recordRef list"

text \<open>
  The outside world. \<open>workerReply env log i\<close> is the reply of worker \<open>i\<close> to the last message
  of \<open>log\<close>, the messages sent so far. \<open>md5\<close> is the hex digest; feeding a hash object several
  strings digests their concatenation. \<open>fsWatch\<close> gives the error \<open>fs.watch\<close> throws, if any;
  \<open>readlink\<close> says whether \<open>fs.readlink\<close> passed no error.
\<close>

record env =
  md5 :: "string \<Rightarrow> string"
  readFile :: "string \<Rightarrow> js_error + string"
  stat :: "string \<Rightarrow> js_error + real"
  fsWatch :: "string \<Rightarrow> js_error option"
  jspmFormat :: "string \<Rightarrow> bool \<Rightarrow> js_error + string option"
  jspmResolve :: "string \<Rightarrow> string \<Rightarrow> bool \<Rightarrow> js_error + (string option \<times> string option)"
  packagePath :: "string \<Rightarrow> js_error + string option"
  readlink :: "string \<Rightarrow> bool"
  resolveBuiltin :: "string option \<Rightarrow> string option"
  relative :: "string \<Rightarrow> string \<Rightarrow> string"
  dirname :: "string \<Rightarrow> string"
  basename :: "string \<Rightarrow> string"
  sep :: char
  isWindows :: bool
  workerReply :: "(workerRef \<times> message) list \<Rightarrow> workerRef \<Rightarrow> reply"
  now :: int
  cpus :: nat

section \<open>Strings\<close>

definition startsWith :: "string \<Rightarrow> string \<Rightarrow> bool" where
  "startsWith s p = (take (length p) s = p)"

definition endsWith :: "string \<Rightarrow> string \<Rightarrow> bool" where
  "endsWith s p = (length p \<le> length s \<and> drop (length s - length p) s = p)"

text \<open>\<open>s.replace(winSepRegEx, '/')\<close>: every backslash becomes a slash.\<close>

definition replaceWinSep :: "string \<Rightarrow> string" where
  "replaceWinSep s = map (\<lambda>c. if c = CHR 0x5C then CHR ''/'' else c) s"

text \<open>\<open>name[name.length - 1] === '/' ? name.substr(0, name.length - 1) : name\<close>\<close>

definition stripSlash :: "string \<Rightarrow> string" where
  "stripSlash name = (if name \<noteq> [] \<and> last name = CHR ''/'' then butlast name else name)"

text \<open>A value in a template literal: \<open>undefined\<close> prints as its name.\<close>

definition templ :: "string option \<Rightarrow> string" where
  "templ v = (case v of None \<Rightarrow> ''undefined'' | Some s \<Rightarrow> s)"

text \<open>\<open>hash && ...\<close>: \<open>undefined\<close> and the empty string are falsy.\<close>

definition truthy :: "string option \<Rightarrow> bool" where
  "truthy v = (case v of None \<Rightarrow> False | Some s \<Rightarrow> s \<noteq> [])"

definition transformError :: "string \<Rightarrow> js_error" where
  "transformError d = \<lparr>message = d, code = Some ''ETRANSFORM''\<rparr>"

definition typeError :: "string \<Rightarrow> js_error" where
  "typeError d = \<lparr>message = d, code = None\<rparr>"

section \<open>State helpers\<close>

definition updRecord ::
  "FileTransformCache \<Rightarrow> recordRef \<Rightarrow> (FileTransformRecord \<Rightarrow> FileTransformRecord) \<Rightarrow> FileTransformCache" where
  "updRecord st r f = st\<lparr>heap := (heap st)(r := f (heap st r))\<rparr>"

definition updWorker ::
  "FileTransformCache \<Rightarrow> workerRef \<Rightarrow> (TransformWorker \<Rightarrow> TransformWorker) \<Rightarrow> FileTransformCache" where
  "updWorker st i f = st\<lparr>workers := (workers st)[i := f (workers st ! i)]\<rparr>"

definition send :: "FileTransformCache \<Rightarrow> workerRef \<Rightarrow> message \<Rightarrow> FileTransformCache" where
  "send st i m = st\<lparr>sent := sent st @ [(i, m)]\<rparr>"

text \<open>
  The \<open>message\<close> listener of the constructor: a reply of type \<open>error\<close> rejects the waiting
  promise with an \<open>ETRANSFORM\<close> error, any other reply resolves it with the data.
\<close>

definition await_reply :: "env \<Rightarrow> FileTransformCache \<Rightarrow> workerRef \<Rightarrow> replydata promise" where
  "await_reply e st i =
     (case workerReply e (sent st) i of
        ErrorReply d \<Rightarrow> Rejected (transformError d)
      | DataReply d \<Rightarrow> Fulfilled d)"

text \<open>The three kinds of message the class sends to a worker process.\<close>

definition sourceMessage :: "env \<Rightarrow> FileTransformCache \<Rightarrow> recordRef \<Rightarrow> message" where
  "sourceMessage e st r =
     Message ''source''
       (SourceData (originalSource (heap st r)) (basename e (path (heap st r))) (production st))"

definition analyzeMessage :: "FileTransformRecord \<Rightarrow> message" where
  "analyzeMessage rec = Message (if dew rec then ''analyze-cjs'' else ''analyze-esm'') (FlagData False)"

definition transformMessage :: "FileTransformRecord \<Rightarrow> ResolveMap option \<Rightarrow> message" where
  "transformMessage rec resolveMap =
     Message (if dew rec then ''transform-dew'' else ''transform-esm'') (MapData resolveMap)"

section \<open>The worker pool\<close>

text \<open>The loop of \<open>assignWorker\<close>: the first worker whose \<open>record\<close> is \<open>undefined\<close>.\<close>

fun findFree :: "TransformWorker list \<Rightarrow> nat \<Rightarrow> workerRef option" where
  "findFree [] i = None"
| "findFree (w # ws) i = (if record_w w = None then Some i else findFree ws (Suc i))"

text \<open>
  \<open>assignWorker\<close> after a worker is bound: the \<open>source\<close> message and the wait for its
  acknowledgement.
\<close>

definition assignWorker_prime ::
  "env \<Rightarrow> FileTransformCache \<Rightarrow> recordRef \<Rightarrow> workerRef \<Rightarrow> FileTransformCache \<times> workerRef promise" where
  "assignWorker_prime e st r i =
     (let st1 = send st i (sourceMessage e st r);
          st2 = updWorker st1 i (\<lambda>w. w\<lparr>msgResolve := Some AckHandler, msgReject := Some AckHandler\<rparr>)
      in case await_reply e st2 i of
           Rejected err \<Rightarrow> (st2, Rejected err)
         | Pending \<Rightarrow> (st2, Pending)
         | Fulfilled d \<Rightarrow> (st2, Fulfilled i))"

definition assignWorker ::
  "env \<Rightarrow> FileTransformCache \<Rightarrow> recordRef \<Rightarrow> FileTransformCache \<times> workerRef promise" where
  "assignWorker e st r =
     (case findFree (workers st) 0 of
        Some i \<Rightarrow> assignWorker_prime e (updWorker st i (\<lambda>w. w\<lparr>record_w := Some r\<rparr>)) r i
      | None \<Rightarrow> (st\<lparr>transformQueue := transformQueue st @ [r]\<rparr>, Pending))"

definition freeWorker :: "FileTransformCache \<Rightarrow> workerRef \<Rightarrow> FileTransformCache" where
  "freeWorker st i =
     (let st1 = updWorker st i (\<lambda>w. w\<lparr>record_w := None, msgResolve := None, msgReject := None\<rparr>)
      in case transformQueue st1 of
           [] \<Rightarrow> st1
         | r # q \<Rightarrow>
             (updWorker (st1\<lparr>transformQueue := q\<rparr>) i (\<lambda>w. w\<lparr>record_w := Some r\<rparr>))
               \<lparr>resumed := resumed st1 @ [(r, i)]\<rparr>)"

section \<open>The resolve map\<close>

text \<open>
  The steps of the loop body of \<open>getResolveMap\<close>. \<open>resolveDep\<close> is the call of the resolver
  and the substitution of a builtin, where \<open>@empty\<close> becomes \<open>undefined\<close>; it gives the
  resolved path and the format. \<open>relResolved\<close> is the path relative to the directory of the
  record, and \<open>rewritten\<close> adds the suffix of the variant.
\<close>

definition resolveDep ::
  "env \<Rightarrow> string \<Rightarrow> bool \<Rightarrow> string \<Rightarrow> js_error + (string option \<times> string option)" where
  "resolveDep e recPath recDew dep =
     (case jspmResolve e (stripSlash dep) recPath recDew of
        Inl err \<Rightarrow> Inl err
      | Inr (resolved0, format) \<Rightarrow>
          Inr (if format = Some ''builtin''
               then (let b = resolveBuiltin e resolved0
                     in if b = Some ''@empty'' then None else b)
               else resolved0, format))"

definition relResolved :: "env \<Rightarrow> string \<Rightarrow> string \<Rightarrow> string" where
  "relResolved e base res =
     (let rel0 = relative e base res;
          rel1 = (if isWindows e then replaceWinSep rel0 else rel0)
      in if \<not> startsWith rel1 ''../'' then ''./'' @ rel1 else rel1)"

definition rewritten :: "bool \<Rightarrow> string option \<Rightarrow> string \<Rightarrow> string" where
  "rewritten recDew format rel =
     (if recDew then rel @ ''?dew''
      else if format = Some ''cjs'' \<or> format = Some ''json'' then rel @ ''?cjs''
      else rel)"

definition outsideError :: "env \<Rightarrow> string \<Rightarrow> string \<Rightarrow> string \<Rightarrow> js_error" where
  "outsideError e pub recPath rel =
     transformError (''Path '' @ replaceWinSep (relative e pub recPath)
       @ '' has a dependency '' @ rel @ '' outside of the public directory.'')"

text \<open>The object literal \<open>{}\<close>.\<close>

definition emptyObject :: ResolveMap where
  "emptyObject = \<lparr>props = Map.empty, protoNull = False\<rparr>"

text \<open>
  The assignment \<open>resolveMap[dep] = v\<close>. While the object inherits from
  \<open>Object.prototype\<close>, the key \<open>__proto__\<close> names the accessor inherited from there, and the
  assignment calls its setter: \<open>null\<close> becomes the prototype of the object, a string is
  ignored, and no own property is made. Any other key, and \<open>__proto__\<close> too once the
  prototype is \<open>null\<close>, makes or updates an own property.
\<close>

definition setEntry :: "ResolveMap \<Rightarrow> string \<Rightarrow> string option \<Rightarrow> ResolveMap" where
  "setEntry m k v =
     (if k = ''__proto__'' \<and> \<not> protoNull m
      then (case v of None \<Rightarrow> m\<lparr>protoNull := True\<rparr> | Some s \<Rightarrow> m)
      else m\<lparr>props := (props m)(k \<mapsto> v)\<rparr>)"

text \<open>
  The loop of \<open>getResolveMap\<close> for a record with path \<open>recPath\<close> and variant \<open>recDew\<close>, over
  the dependencies left, with the map built so far and the text fed to the hash object so
  far.
\<close>

fun resolveDeps ::
  "env \<Rightarrow> string \<Rightarrow> string \<Rightarrow> bool \<Rightarrow> string \<Rightarrow> string list \<Rightarrow> ResolveMap \<Rightarrow> string
     \<Rightarrow> (ResolveMap \<times> string) promise" where
  "resolveDeps e pub recPath recDew base [] m h = Fulfilled (m, md5 e h)"
| "resolveDeps e pub recPath recDew base (dep # ds) m h =
     (case resolveDep e recPath recDew dep of
        Inl err \<Rightarrow> Rejected err
      | Inr (None, format) \<Rightarrow>
          resolveDeps e pub recPath recDew base ds (setEntry m dep None)
            (h @ dep @ ''@empty'')
      | Inr (Some res, format) \<Rightarrow>
          if \<not> startsWith res pub
          then Rejected (outsideError e pub recPath (relResolved e base res))
          else resolveDeps e pub recPath recDew base ds
                 (if dep \<noteq> rewritten recDew format (relResolved e base res)
                  then setEntry m dep (Some (rewritten recDew format (relResolved e base res)))
                  else m)
                 (h @ dep @ res))"

text \<open>Iterating over \<open>record.deps\<close> when it is \<open>undefined\<close> throws a \<open>TypeError\<close>.\<close>

definition getResolveMap ::
  "env \<Rightarrow> FileTransformCache \<Rightarrow> recordRef \<Rightarrow> (ResolveMap \<times> string) promise" where
  "getResolveMap e st r =
     (let rec = heap st r
      in case deps rec of
           None \<Rightarrow> Rejected (typeError ''record.deps is not iterable'')
         | Some ds \<Rightarrow>
             resolveDeps e (publicDir st) (path rec) (dew rec) (dirname e (path rec)) ds
               emptyObject [])"

section \<open>Modification times\<close>

text \<open>The promise built inside \<open>getMtime\<close> around \<open>fs.stat\<close>.\<close>

definition statPromise :: "env \<Rightarrow> string \<Rightarrow> real promise" where
  "statPromise e p =
     (case stat e p of
        Inl err \<Rightarrow>
          if code err = Some ''ENOENT'' \<or> code err = Some ''EACCES'' then Fulfilled (- 1)
          else Rejected err
      | Inr mtimeMs \<Rightarrow> Fulfilled mtimeMs)"

text \<open>
  \<open>getMtime\<close> awaits that promise and returns nothing: its own promise is fulfilled with
  \<open>undefined\<close> (\<open>None\<close>), or rejected with the error of the inner one.
\<close>

definition getMtime :: "env \<Rightarrow> string \<Rightarrow> real option promise" where
  "getMtime e p =
     (case statPromise e p of
        Fulfilled v \<Rightarrow> Fulfilled None
      | Rejected err \<Rightarrow> Rejected err
      | Pending \<Rightarrow> Pending)"

definition isGlobalCache_m :: "env \<Rightarrow> string \<Rightarrow> bool promise" where
  "isGlobalCache_m e p =
     (case packagePath e p of
        Inl err \<Rightarrow> Rejected err
      | Inr None \<Rightarrow> Fulfilled False
      | Inr (Some pp) \<Rightarrow> Fulfilled (readlink e pp))"

section \<open>The hash phase\<close>

text \<open>
  The block of \<open>doHash\<close> that runs when the source hash is new: the stored hash is updated
  first, then a worker is assigned and asked for the dependencies. It gives the worker.
\<close>

definition doHash_analyze ::
  "env \<Rightarrow> FileTransformCache \<Rightarrow> recordRef \<Rightarrow> string
     \<Rightarrow> FileTransformCache \<times> workerRef option promise" where
  "doHash_analyze e st r sourceHash =
     (case assignWorker e (updRecord st r (\<lambda>x. x\<lparr>originalSourceHash := Some sourceHash\<rparr>)) r of
        (st1, Rejected err) \<Rightarrow> (st1, Rejected err)
      | (st1, Pending) \<Rightarrow> (st1, Pending)
      | (st1, Fulfilled w) \<Rightarrow>
          (let st2 = updWorker st1 w
                       (\<lambda>x. x\<lparr>msgResolve := Some DepsHandler, msgReject := Some DepsHandler\<rparr>);
               st3 = send st2 w (analyzeMessage (heap st2 r))
           in case await_reply e st3 w of
                Rejected err \<Rightarrow> (st3, Rejected err)
              | Pending \<Rightarrow> (st3, Pending)
              | Fulfilled d \<Rightarrow> (updRecord st3 r (\<lambda>x. x\<lparr>deps := deps_of d\<rparr>), Fulfilled (Some w))))"

text \<open>
  The async body of \<open>doHash\<close>, inside its \<open>try\<close>. Hashing an \<open>undefined\<close> source throws a
  \<open>TypeError\<close>.
\<close>

definition doHash_body ::
  "env \<Rightarrow> FileTransformCache \<Rightarrow> recordRef
     \<Rightarrow> FileTransformCache \<times> (ResolveMap option \<times> workerRef option) promise" where
  "doHash_body e st r =
     (case originalSource (heap st r) of
        None \<Rightarrow> (st, Rejected (typeError ''The data argument must be of type string''))
      | Some src \<Rightarrow>
          (let sourceHash = md5 e src
           in if endsWith (path (heap st r)) ''.json''
              then (updRecord st r (\<lambda>x. x\<lparr>hashPromise := None, fullHash := Some sourceHash\<rparr>),
                    Fulfilled (None, None))
              else (case (if originalSourceHash (heap st r) \<noteq> Some sourceHash
                          then doHash_analyze e st r sourceHash
                          else (st, Fulfilled None)) of
                      (st1, Rejected err) \<Rightarrow> (st1, Rejected err)
                    | (st1, Pending) \<Rightarrow> (st1, Pending)
                    | (st1, Fulfilled worker) \<Rightarrow>
                        (case getResolveMap e st1 r of
                           Rejected err \<Rightarrow> (st1, Rejected err)
                         | Pending \<Rightarrow> (st1, Pending)
                         | Fulfilled (resolveMap, resolveMapHash) \<Rightarrow>
                             (updRecord st1 r (\<lambda>x. x\<lparr>fullHash := Some (sourceHash @ resolveMapHash)\<rparr>),
                              Fulfilled (Some resolveMap, worker))))))"

text \<open>
  \<open>doHash\<close>: an existing promise is returned as it is. Otherwise the body runs, its promise
  is stored in the record (after the synchronous part of the body, so that the store wins
  over the clearing in the JSON branch), and when the body has finished, the \<open>finally\<close>
  block schedules the clearing of the promise.
\<close>

definition doHash ::
  "env \<Rightarrow> FileTransformCache \<Rightarrow> recordRef
     \<Rightarrow> FileTransformCache \<times> (ResolveMap option \<times> workerRef option) promise" where
  "doHash e st r =
     (case hashPromise (heap st r) of
        Some p \<Rightarrow> (st, p)
      | None \<Rightarrow>
          (case doHash_body e st r of
             (st1, Pending) \<Rightarrow> (updRecord st1 r (\<lambda>x. x\<lparr>hashPromise := Some Pending\<rparr>), Pending)
           | (st1, out) \<Rightarrow>
               (updRecord (st1\<lparr>hashTimers := hashTimers st1 @ [r]\<rparr>) r
                  (\<lambda>x. x\<lparr>hashPromise := Some out\<rparr>), out)))"

text \<open>The callback of the timer that \<open>doHash\<close> schedules.\<close>

definition hashTimeout :: "FileTransformCache \<Rightarrow> recordRef \<Rightarrow> FileTransformCache" where
  "hashTimeout st r =
     (if r \<in> set (hashTimers st)
      then updRecord (st\<lparr>hashTimers := remove1 r (hashTimers st)\<rparr>) r (\<lambda>x. x\<lparr>hashPromise := None\<rparr>)
      else st)"

section \<open>The transform phase\<close>

text \<open>The \<open>try\<close> and \<open>finally\<close> of \<open>doTransform\<close>, with the worker bound.\<close>

definition doTransform_send ::
  "env \<Rightarrow> FileTransformCache \<Rightarrow> recordRef \<Rightarrow> ResolveMap option \<Rightarrow> workerRef \<Rightarrow> bool promise
     \<Rightarrow> FileTransformCache \<times> unit promise" where
  "doTransform_send e st r resolveMap w igc =
     (let st1 = updWorker st w
                  (\<lambda>x. x\<lparr>msgResolve := Some TransformHandler, msgReject := Some TransformHandler\<rparr>);
          st2 = send st1 w (transformMessage (heap st1 r) resolveMap);
          (st3, out) =
            (case await_reply e st2 w of
               Rejected err \<Rightarrow> (st2, Rejected err)
             | Pending \<Rightarrow> (st2, Pending)
             | Fulfilled d \<Rightarrow>
                 (let st' = updRecord st2 r (\<lambda>x. x\<lparr>source := source_of d, sourceMap := sourceMap_of d\<rparr>)
                  in case igc of
                       Rejected err \<Rightarrow> (st', Rejected err)
                     | Pending \<Rightarrow> (st', Pending)
                     | Fulfilled g \<Rightarrow> (updRecord st' r (\<lambda>x. x\<lparr>isGlobalCache := g\<rparr>), Fulfilled ())))
      in (updRecord (freeWorker st3 w) r (\<lambda>x. x\<lparr>transformPromise := None\<rparr>), out))"

text \<open>
  \<open>doTransform\<close>. In the JSON branch and in the branch of a module without dependencies
  the promise stays in the record; so does the promise of a call that fails or is parked
  in \<open>assignWorker\<close>, which is outside the \<open>try\<close>.
\<close>

definition doTransform ::
  "env \<Rightarrow> FileTransformCache \<Rightarrow> recordRef \<Rightarrow> ResolveMap option \<Rightarrow> workerRef option
     \<Rightarrow> FileTransformCache \<times> unit promise" where
  "doTransform e st r resolveMap worker =
     (case transformPromise (heap st r) of
        Some p \<Rightarrow> (st, p)
      | None \<Rightarrow>
          (let rec = heap st r; igc = isGlobalCache_m e (path rec)
           in if endsWith (path rec) ''.json''
              then (let st1 = updRecord st r
                                (\<lambda>x. x\<lparr>source := Some (''export var __dew__ = null; export var exports = ''
                                                         @ templ (originalSource rec))\<rparr>)
                    in case igc of
                         Rejected err \<Rightarrow>
                           (updRecord st1 r (\<lambda>x. x\<lparr>transformPromise := Some (Rejected err)\<rparr>), Rejected err)
                       | Pending \<Rightarrow>
                           (updRecord st1 r (\<lambda>x. x\<lparr>transformPromise := Some Pending\<rparr>), Pending)
                       | Fulfilled g \<Rightarrow>
                           (updRecord st1 r
                              (\<lambda>x. x\<lparr>isGlobalCache := g, transformPromise := Some (Fulfilled ())\<rparr>),
                            Fulfilled ()))
              else if \<not> dew rec \<and> deps rec = None
              then (let err = typeError ''Cannot read property length of undefined''
                    in (updRecord st r (\<lambda>x. x\<lparr>transformPromise := Some (Rejected err)\<rparr>), Rejected err))
              else if \<not> dew rec \<and> deps rec = Some []
              then (let st1 = updRecord st r (\<lambda>x. x\<lparr>source := originalSource rec\<rparr>)
                    in case igc of
                         Rejected err \<Rightarrow>
                           (updRecord st1 r (\<lambda>x. x\<lparr>transformPromise := Some (Rejected err)\<rparr>), Rejected err)
                       | Pending \<Rightarrow>
                           (updRecord st1 r (\<lambda>x. x\<lparr>transformPromise := Some Pending\<rparr>), Pending)
                       | Fulfilled g \<Rightarrow>
                           (let st2 = updRecord st1 r (\<lambda>x. x\<lparr>isGlobalCache := g\<rparr>);
                                st3 = (case worker of Some w \<Rightarrow> freeWorker st2 w | None \<Rightarrow> st2)
                            in (updRecord st3 r (\<lambda>x. x\<lparr>transformPromise := Some (Fulfilled ())\<rparr>),
                                Fulfilled ())))
              else (case (case worker of
                            Some w \<Rightarrow> (st, Fulfilled w)
                          | None \<Rightarrow> assignWorker e st r) of
                      (st1, Rejected err) \<Rightarrow>
                        (updRecord st1 r (\<lambda>x. x\<lparr>transformPromise := Some (Rejected err)\<rparr>), Rejected err)
                    | (st1, Pending) \<Rightarrow>
                        (updRecord st1 r (\<lambda>x. x\<lparr>transformPromise := Some Pending\<rparr>), Pending)
                    | (st1, Fulfilled w) \<Rightarrow> doTransform_send e st1 r resolveMap w igc)))"

section \<open>Watching\<close>

text \<open>
  \<open>watch\<close>, up to the registration of the listener. At the full watch count the record is
  marked unwatched and its \<open>mtime\<close> is set from \<open>getMtime\<close> by a detached callback, run here
  at once; a rejection of that promise is not handled. Otherwise \<open>fs.watch\<close> is called, which
  may throw: the error, if any, is the second component.
\<close>

definition watch ::
  "env \<Rightarrow> FileTransformCache \<Rightarrow> recordRef \<Rightarrow> FileTransformCache \<times> js_error option" where
  "watch e st r =
     (if int (length (watching_c st)) = maxWatchCount st
      then (let st1 = updRecord st r (\<lambda>x. x\<lparr>watching := False\<rparr>)
            in case getMtime e (path (heap st1 r)) of
                 Fulfilled m \<Rightarrow> (updRecord st1 r (\<lambda>x. x\<lparr>mtime := m\<rparr>), None)
               | Rejected err \<Rightarrow> (st1, None)
               | Pending \<Rightarrow> (st1, None))
      else (case fsWatch e (path (heap st r)) of
              Some err \<Rightarrow> (st, Some err)
            | None \<Rightarrow>
                (updRecord (st\<lparr>watching_c := watching_c st @ [r]\<rparr>) r (\<lambda>x. x\<lparr>watching := True\<rparr>),
                 None)))"

section \<open>The request coordinator\<close>

record GetResult =
  source_out :: "string option"
  sourceMap_out :: "string option"
  hash_out :: "string option"
  isGlobalCache_out :: bool

definition notModified :: "string option \<Rightarrow> FileTransformRecord \<Rightarrow> GetResult" where
  "notModified hash rec =
     \<lparr>source_out = None, sourceMap_out = None, hash_out = hash,
      isGlobalCache_out = isGlobalCache rec\<rparr>"

definition fullResult :: "FileTransformRecord \<Rightarrow> GetResult" where
  "fullResult rec =
     \<lparr>source_out = source rec, sourceMap_out = sourceMap rec, hash_out = fullHash rec,
      isGlobalCache_out = isGlobalCache rec\<rparr>"

text \<open>The record object that the first-time path of \<open>get\<close> creates.\<close>

definition newRecord :: "env \<Rightarrow> string \<Rightarrow> bool \<Rightarrow> FileTransformRecord" where
  "newRecord e filePath isDew =
     \<lparr>path = filePath, hashPromise = None, transformPromise = None, mtime = None,
      isGlobalCache = False, checkTime = now e, originalSource = None,
      originalSourceHash = None, deps = None, dew = isDew, fullHash = None, source = None,
      sourceMap = None, watching = False\<rparr>"

text \<open>
  The first-time path of \<open>get\<close> once the format is accepted: the record is allocated and
  watched, and the source is awaited.
\<close>

definition createRecord_alloc ::
  "env \<Rightarrow> FileTransformCache \<Rightarrow> string \<Rightarrow> bool \<Rightarrow> FileTransformCache \<times> recval promise" where
  "createRecord_alloc e st filePath isDew =
     (let r = nextRef st;
          st1 = st\<lparr>heap := (heap st)(r := newRecord e filePath isDew), nextRef := Suc r\<rparr>
      in case watch e st1 r of
           (st2, Some err) \<Rightarrow> (st2, Rejected err)
         | (st2, None) \<Rightarrow>
             (case readFile e filePath of
                Inl err \<Rightarrow>
                  (st2, Rejected (if code err = Some ''ENOENT''
                                  then err\<lparr>code := Some ''ENOTFOUND''\<rparr> else err))
              | Inr src \<Rightarrow>
                  (updRecord st2 r (\<lambda>x. x\<lparr>originalSource := Some src\<rparr>),
                   Fulfilled (RecordRef r))))"

text \<open>
  The async function of the first-time path of \<open>get\<close>: it gives the value of the new handle
  of the record store.
\<close>

definition createRecord ::
  "env \<Rightarrow> FileTransformCache \<Rightarrow> string \<Rightarrow> bool \<Rightarrow> FileTransformCache \<times> recval promise" where
  "createRecord e st filePath isDew =
     (case jspmFormat e filePath isDew of
        Inl err \<Rightarrow> (st, Rejected err)
      | Inr format \<Rightarrow>
          if isDew
          then (if format \<noteq> Some ''cjs'' \<and> format \<noteq> Some ''json''
                then (st, Rejected \<lparr>message = ''No dew transform for '' @ templ format @ '' format.'',
                                    code = Some ''ENOTRANSFORM''\<rparr>)
                else createRecord_alloc e st filePath isDew)
          else if format = Some ''esm'' then createRecord_alloc e st filePath isDew
          else if format = Some ''json'' \<or> format = Some ''cjs'' then (st, Fulfilled VNull)
          else (st, Rejected \<lparr>message = ''Unable to transform module format ''
                                 @ (if truthy format then templ format else ''unknown'') @ ''.'',
                              code = None\<rparr>))"

text \<open>
  The async function of the freshness check of \<open>get\<close>: it gives the value of the handle
  that replaces the one of the record store.
\<close>

definition refresh ::
  "env \<Rightarrow> FileTransformCache \<Rightarrow> string \<Rightarrow> recordRef \<Rightarrow> FileTransformCache \<times> recval promise" where
  "refresh e st filePath r =
     (case getMtime e (path (heap st r)) of
        Rejected err \<Rightarrow> (st, Rejected err)
      | Pending \<Rightarrow> (st, Pending)
      | Fulfilled m \<Rightarrow>
          if m \<noteq> mtime (heap st r)
          then (case readFile e filePath of
                  Inl err \<Rightarrow>
                    if code err = Some ''ENOENT'' then (st, Fulfilled VUndefined)
                    else (st, Rejected err)
                | Inr src \<Rightarrow>
                    (updRecord st r (\<lambda>x. x\<lparr>originalSource := Some src, mtime := m\<rparr>),
                     Fulfilled (RecordRef r)))
          else (st, Fulfilled (RecordRef r)))"

text \<open>The end of \<open>get\<close>: the transform promise awaited, then the record read.\<close>

definition get_result ::
  "FileTransformCache \<times> unit promise \<Rightarrow> recordRef
     \<Rightarrow> FileTransformCache \<times> GetResult option promise" where
  "get_result x r =
     (case x of
        (st, Rejected err) \<Rightarrow> (st, Rejected err)
      | (st, Pending) \<Rightarrow> (st, Pending)
      | (st, Fulfilled u) \<Rightarrow> (st, Fulfilled (Some (fullResult (heap st r)))))"

text \<open>
  The branch of \<open>get\<close> for a record with no hash phase and no transform phase in place:
  the hash phase, the test of the caller's hash, the transform phase.
\<close>

definition get_idle ::
  "env \<Rightarrow> FileTransformCache \<Rightarrow> recordRef \<Rightarrow> string option
     \<Rightarrow> FileTransformCache \<times> GetResult option promise" where
  "get_idle e st r hash =
     (case doHash e st r of
        (st1, Rejected err) \<Rightarrow> (st1, Rejected err)
      | (st1, Pending) \<Rightarrow> (st1, Pending)
      | (st1, Fulfilled (resolveMap, worker)) \<Rightarrow>
          if truthy hash \<and> fullHash (heap st1 r) = hash
          then ((case worker of Some w \<Rightarrow> freeWorker st1 w | None \<Rightarrow> st1),
                Fulfilled (Some (notModified hash (heap st1 r))))
          else get_result (doTransform e st1 r resolveMap worker) r)"

text \<open>
  \<open>get\<close> once the record is known. In the freshness check the new handle is stored at once
  and its async function runs detached; it is run here after the phases of the request.
\<close>

definition get_phases ::
  "env \<Rightarrow> FileTransformCache \<Rightarrow> string \<Rightarrow> string \<Rightarrow> recordRef \<Rightarrow> string option
     \<Rightarrow> FileTransformCache \<times> GetResult option promise" where
  "get_phases e st filePath key r hash =
     (let rec = heap st r
      in case hashPromise rec of
           None \<Rightarrow>
             (case transformPromise rec of
                Some tp \<Rightarrow>
                  if truthy hash \<and> fullHash rec = hash
                  then (st, Fulfilled (Some (notModified hash rec)))
                  else get_result (st, tp) r
              | None \<Rightarrow>
                  (let (st1, out) = get_idle e st r hash
                   in if checkTime rec < nextExpiry st \<and> watching rec = False
                      then (let (st2, p) = refresh e st1 filePath r
                            in (st2\<lparr>records := (records st2)(key \<mapsto> p)\<rparr>, out))
                      else (st1, out)))
         | Some hp \<Rightarrow>
             (case hp of
                Rejected err \<Rightarrow> (st, Rejected err)
              | Pending \<Rightarrow> (st, Pending)
              | Fulfilled (resolveMap, w) \<Rightarrow>
                  if truthy hash \<and> fullHash rec = hash
                  then (st, Fulfilled (Some (notModified hash rec)))
                  else (case transformPromise rec of
                          Some tp \<Rightarrow> get_result (st, tp) r
                        | None \<Rightarrow> get_result (doTransform e st r resolveMap None) r)))"

text \<open>
  The first part of \<open>get\<close>: the variant is read off the path, the handle of the record store
  is awaited, and a handle that is missing or gives \<open>undefined\<close> is replaced by a new one.
\<close>

definition isDewPath :: "string \<Rightarrow> bool" where
  "isDewPath filePath0 = endsWith filePath0 ''?dew''"

definition barePath :: "string \<Rightarrow> string" where
  "barePath filePath0 =
     (if isDewPath filePath0 then take (length filePath0 - 4) filePath0 else filePath0)"

definition storeKey :: "string \<Rightarrow> string" where
  "storeKey filePath0 = barePath filePath0 @ (if isDewPath filePath0 then ''?dew'' else [])"

definition get_record ::
  "env \<Rightarrow> FileTransformCache \<Rightarrow> string \<Rightarrow> FileTransformCache \<times> recval promise" where
  "get_record e st filePath0 =
     (case (case records st (storeKey filePath0) of
              None \<Rightarrow> Fulfilled VUndefined
            | Some p \<Rightarrow> p) of
        Rejected err \<Rightarrow> (st, Rejected err)
      | Pending \<Rightarrow> (st, Pending)
      | Fulfilled v \<Rightarrow>
          if v = VUndefined
          then (let (s, p) = createRecord e st (barePath filePath0) (isDewPath filePath0)
                in (s\<lparr>records := (records s)(storeKey filePath0 \<mapsto> p)\<rparr>, p))
          else (st, Fulfilled v))"

definition get ::
  "env \<Rightarrow> FileTransformCache \<Rightarrow> string \<Rightarrow> string option
     \<Rightarrow> FileTransformCache \<times> GetResult option promise" where
  "get e st filePath0 hash =
     (case get_record e st filePath0 of
        (st1, Rejected err) \<Rightarrow> (st1, Rejected err)
      | (st1, Pending) \<Rightarrow> (st1, Pending)
      | (st1, Fulfilled (RecordRef r)) \<Rightarrow>
          get_phases e st1 (barePath filePath0) (storeKey filePath0) r hash
      | (st1, Fulfilled v) \<Rightarrow> (st1, Fulfilled None))"

section \<open>Watch events\<close>

text \<open>
  The listener that \<open>watch\<close> registers, for an event of type \<open>ty\<close>. The transform it starts
  is not awaited and its rejection is swallowed. The promise is that of the listener.
\<close>

definition onChange ::
  "env \<Rightarrow> FileTransformCache \<Rightarrow> recordRef \<Rightarrow> string \<Rightarrow> FileTransformCache \<times> unit promise" where
  "onChange e st r ty =
     (if ty = ''change''
      then (case readFile e (path (heap st r)) of
              Inl err \<Rightarrow> (st, Rejected err)
            | Inr src \<Rightarrow>
                (let st1 = updRecord st r (\<lambda>x. x\<lparr>originalSource := Some src\<rparr>);
                     hash = fullHash (heap st1 r)
                 in case (case transformPromise (heap st1 r) of
                            None \<Rightarrow> Fulfilled ()
                          | Some tp \<Rightarrow> tp) of
                      Rejected err \<Rightarrow> (st1, Rejected err)
                    | Pending \<Rightarrow> (st1, Pending)
                    | Fulfilled u \<Rightarrow>
                        (case doHash e st1 r of
                           (st2, Rejected err) \<Rightarrow> (st2, Rejected err)
                         | (st2, Pending) \<Rightarrow> (st2, Pending)
                         | (st2, Fulfilled (resolveMap, worker)) \<Rightarrow>
                             if hash \<noteq> fullHash (heap st2 r)
                             then (fst (doTransform e st2 r resolveMap worker), Fulfilled ())
                             else ((case worker of Some w \<Rightarrow> freeWorker st2 w | None \<Rightarrow> st2),
                                   Fulfilled ()))))
      else if ty = ''rename''
      then (updRecord st r (\<lambda>x. x\<lparr>watching := False, checkTime := now e\<rparr>), Fulfilled ())
      else (st, Fulfilled ()))"

section \<open>Construction and the periodic clear\<close>

definition idleWorker :: TransformWorker where
  "idleWorker = \<lparr>record_w = None, msgResolve = None, msgReject = None\<rparr>"

definition blankRecord :: FileTransformRecord where
  "blankRecord =
     \<lparr>path = [], hashPromise = None, transformPromise = None, mtime = None,
      isGlobalCache = False, checkTime = 0, originalSource = None, originalSourceHash = None,
      deps = None, dew = False, fullHash = None, source = None, sourceMap = None,
      watching = False\<rparr>"

text \<open>The constructor; \<open>blankRecord\<close> fills the addresses of the heap not yet allocated.\<close>

definition constructor :: "env \<Rightarrow> string \<Rightarrow> int \<Rightarrow> int \<Rightarrow> bool \<Rightarrow> FileTransformCache" where
  "constructor e publicDir0 cacheClearInterval0 maxWatchCount0 production0 =
     \<lparr>maxWatchCount = maxWatchCount0,
      production = production0,
      records = Map.empty,
      publicDir = replaceWinSep
        (if publicDir0 = [] \<or> last publicDir0 \<noteq> sep e then publicDir0 @ [sep e] else publicDir0),
      watching_c = [],
      workers = replicate (cpus e) idleWorker,
      transformQueue = [],
      resolveCache = InitialBag,
      resolveEnv = (production0, True),
      nextExpiry = now e + cacheClearInterval0,
      cacheInterval = (if cacheClearInterval0 > 0 then Some cacheClearInterval0 else None),
      cacheClearInterval = cacheClearInterval0,
      heap = (\<lambda>r. blankRecord),
      nextRef = 0,
      sent = [],
      resumed = [],
      hashTimers = []\<rparr>"

definition clearResolveCache :: "env \<Rightarrow> FileTransformCache \<Rightarrow> FileTransformCache" where
  "clearResolveCache e st = st\<lparr>resolveCache := EmptyBag, nextExpiry := now e + cacheClearInterval st\<rparr>"

section \<open>The instance over time\<close>

text \<open>
  What can happen to an instance after its construction: a call of \<open>get\<close>, an event of a
  watcher, a cleanup timer of \<open>doHash\<close> firing, and a tick of the periodic timer, which
  calls \<open>clearResolveCache\<close> and exists only if the constructor installed it. Each event
  comes with the outside world of its moment.
\<close>

datatype event =
    Get string "string option"
  | WatchEvent recordRef string
  | HashTimeout recordRef
  | IntervalTick

definition step :: "FileTransformCache \<Rightarrow> env \<times> event \<Rightarrow> FileTransformCache" where
  "step st x =
     (case x of
        (e, Get filePath hash) \<Rightarrow> fst (get e st filePath hash)
      | (e, WatchEvent r ty) \<Rightarrow> (if r \<in> set (watching_c st) then fst (onChange e st r ty) else st)
      | (e, HashTimeout r) \<Rightarrow> hashTimeout st r
      | (e, IntervalTick) \<Rightarrow>
          (case cacheInterval st of None \<Rightarrow> st | Some period \<Rightarrow> clearResolveCache e st))"

definition run :: "FileTransformCache \<Rightarrow> (env \<times> event) list \<Rightarrow> FileTransformCache" where
  "run st evs = foldl step st evs"

section \<open>Notions used in the statements\<close>

text \<open>
  The part of the state that only \<open>clearResolveCache\<close> writes, with the handle of the
  periodic timer.
\<close>

definition clock :: "FileTransformCache \<Rightarrow> int \<times> cacheBag \<times> int option" where
  "clock st = (nextExpiry st, resolveCache st, cacheInterval st)"

text \<open>
  The loop of \<open>getResolveMap\<close> goes past a dependency when the resolver gives no error and
  the dependency is the empty module or lies under the public directory.
\<close>

definition depInside :: "env \<Rightarrow> string \<Rightarrow> string \<Rightarrow> bool \<Rightarrow> string \<Rightarrow> bool" where
  "depInside e pub recPath recDew dep =
     (case resolveDep e recPath recDew dep of
        Inl err \<Rightarrow> False
      | Inr (None, format) \<Rightarrow> True
      | Inr (Some res, format) \<Rightarrow> startsWith res pub)"

text \<open>What the loop assigns to the key of a dependency it goes past, if anything.\<close>

definition depEntry :: "env \<Rightarrow> string \<Rightarrow> bool \<Rightarrow> string \<Rightarrow> string \<Rightarrow> string option option" where
  "depEntry e recPath recDew base dep =
     (case resolveDep e recPath recDew dep of
        Inl err \<Rightarrow> None
      | Inr (None, format) \<Rightarrow> Some None
      | Inr (Some res, format) \<Rightarrow>
          if dep \<noteq> rewritten recDew format (relResolved e base res)
          then Some (Some (rewritten recDew format (relResolved e base res))) else None)"

text \<open>
  What the loop feeds to the hash object for a dependency it goes past: the specifier, then
  the resolved path or \<open>@empty\<close>.
\<close>

definition depHashed :: "env \<Rightarrow> string \<Rightarrow> bool \<Rightarrow> string \<Rightarrow> string" where
  "depHashed e recPath recDew dep =
     dep @ (case resolveDep e recPath recDew dep of
              Inr (Some res, format) \<Rightarrow> res
            | _ \<Rightarrow> ''@empty'')"

definition isTransformMessage :: "workerRef \<times> message \<Rightarrow> bool" where
  "isTransformMessage x = startsWith (mtype (snd x)) ''transform-''"

text \<open>The worker pool with its wait queue, and the two logs of its effects.\<close>

definition pool ::
  "FileTransformCache \<Rightarrow>
     TransformWorker list \<times> recordRef list \<times> (recordRef \<times> workerRef) list \<times> (workerRef \<times> message) list" where
  "pool st = (workers st, transformQueue st, resumed st, sent st)"

text \<open>From \<open>st\<close> to \<open>st'\<close> messages were sent, if any, but no \<open>transform-*\<close> message.\<close>

definition quiet :: "FileTransformCache \<Rightarrow> FileTransformCache \<Rightarrow> bool" where
  "quiet st st' = (\<exists>ms. sent st' = sent st @ ms \<and> list_all (\<lambda>x. \<not> isTransformMessage x) ms)"

text \<open>
  The hash phase of record \<open>r\<close> with source \<open>src\<close> gets the dependencies \<open>ds\<close>: the stored
  ones if the hash of the source is the stored one, else those that the first idle worker
  gives when it acknowledges the source and answers the analysis.
\<close>

definition analysed :: "env \<Rightarrow> FileTransformCache \<Rightarrow> recordRef \<Rightarrow> string \<Rightarrow> string list \<Rightarrow> bool" where
  "analysed e st r src ds =
     (if originalSourceHash (heap st r) = Some (md5 e src) then deps (heap st r) = Some ds
      else (case findFree (workers st) 0 of
              None \<Rightarrow> False
            | Some i \<Rightarrow>
                (case workerReply e (sent st @ [(i, sourceMessage e st r)]) i of
                   ErrorReply x \<Rightarrow> False
                 | DataReply a \<Rightarrow>
                     (case workerReply e
                             (sent st @ [(i, sourceMessage e st r), (i, analyzeMessage (heap st r))]) i of
                        ErrorReply x \<Rightarrow> False
                      | DataReply d \<Rightarrow> deps_of d = Some ds))))"



section \<open>Notions used in the proofs\<close>

text \<open>
  What holds of the record of a JSON file as long as its text is kept, with \<open>H\<close> the digest:
  it has no source map and no \<open>mtime\<close>; its full hash, where set, is the digest of its
  text, and its source, where set, is the wrapped text; both are set once a transform is in
  place, and the hash is set while a hash phase that succeeded is in place.
\<close>

definition jsonSound :: "(string \<Rightarrow> string) \<Rightarrow> FileTransformRecord \<Rightarrow> bool" where
  "jsonSound H rec =
     (endsWith (path rec) ''.json'' \<longrightarrow>
        sourceMap rec = None \<and> mtime rec = None \<and>
        (case originalSource rec of
           None \<Rightarrow>
             fullHash rec = None \<and> source rec = None \<and> transformPromise rec = None \<and>
             (\<forall>v. hashPromise rec \<noteq> Some (Fulfilled v))
         | Some src \<Rightarrow>
             (fullHash rec = None \<or> fullHash rec = Some (H src)) \<and>
             (source rec = None \<or>
              source rec = Some (''export var __dew__ = null; export var exports = '' @ src)) \<and>
             (transformPromise rec \<noteq> None \<longrightarrow>
                source rec = Some (''export var __dew__ = null; export var exports = '' @ src) \<and>
                fullHash rec = Some (H src)) \<and>
             (\<forall>v. hashPromise rec = Some (Fulfilled v) \<longrightarrow> fullHash rec = Some (H src))))"


text \<open>
  From \<open>st\<close> to \<open>st'\<close> no record but \<open>r\<close> has changed, and no record has changed its path.
\<close>

definition touch :: "recordRef \<Rightarrow> FileTransformCache \<Rightarrow> FileTransformCache \<Rightarrow> bool" where
  "touch r st st' =
     (\<forall>x. (x \<noteq> r \<longrightarrow> heap st' x = heap st x) \<and> path (heap st' x) = path (heap st x))"

section \<open>A small world for concrete runs\<close>

text \<open>
  A public directory \<open>/pub\<close> with a module \<open>a.js\<close> that imports \<open>b\<close>, a JSON file \<open>a.json\<close>,
  and two workers. The digest is a stand-in that keeps its input readable.
\<close>

definition demoRelative :: "string \<Rightarrow> string \<Rightarrow> string" where
  "demoRelative b p =
     (if startsWith p (stripSlash b @ ''/'') then drop (length (stripSlash b) + 1) p
      else ''..'' @ p)"

text \<open>
  The demo worker analyses the source it was last given: it finds the import of \<open>c\<close> in
  \<open>import c\<close> and the import of \<open>b\<close> in anything else. It never replies with an error.
\<close>

definition lastSource :: "(workerRef \<times> message) list \<Rightarrow> workerRef \<Rightarrow> string option" where
  "lastSource lg i =
     (case filter (\<lambda>x. fst x = i \<and> mtype (snd x) = ''source'') lg of
        [] \<Rightarrow> None
      | y # ys \<Rightarrow>
          (case mdata (snd (last (y # ys))) of
             SourceData s f p \<Rightarrow> s
           | FlagData b \<Rightarrow> None
           | MapData m \<Rightarrow> None))"

definition demoReply :: "(workerRef \<times> message) list \<Rightarrow> workerRef \<Rightarrow> reply" where
  "demoReply lg i =
     (if lg = [] then DataReply (ReplyData None None None)
      else if mtype (snd (last lg)) = ''analyze-esm''
      then DataReply (ReplyData (Some (if lastSource lg i = Some ''import c'' then [''c''] else [''b'']))
             None None)
      else if mtype (snd (last lg)) = ''transform-esm''
      then DataReply (ReplyData None (Some ''out'') (Some ''map''))
      else DataReply (ReplyData None None None))"

definition demoEnv :: env where
  "demoEnv =
     \<lparr>md5 = (\<lambda>s. ''md5:'' @ s),
      readFile = (\<lambda>p. if p = ''/pub/a.js'' then Inr ''import b''
                       else if p = ''/pub/a.json'' then Inr ''{}''
                       else Inl \<lparr>message = ''no such file'', code = Some ''ENOENT''\<rparr>),
      stat = (\<lambda>p. Inr 5),
      fsWatch = (\<lambda>p. None),
      jspmFormat = (\<lambda>p d. Inr (if endsWith p ''.json'' then Some ''json''
                                 else if endsWith p ''.js'' then Some ''esm'' else None)),
      jspmResolve = (\<lambda>n p d. if n = ''b'' \<or> n = ''./b.js'' then Inr (Some ''/pub/b.js'', Some ''esm'')
                        else if n = ''c'' then Inr (Some ''/other/c.js'', Some ''esm'')
                        else Inr (Some ''@empty'', Some ''builtin'')),
      packagePath = (\<lambda>p. Inr None),
      readlink = (\<lambda>p. False),
      resolveBuiltin = (\<lambda>x. x),
      relative = demoRelative,
      dirname = (\<lambda>p. ''/pub''),
      basename = (\<lambda>p. drop 5 p),
      sep = CHR ''/'',
      isWindows = False,
      workerReply = demoReply,
      now = 1000,
      cpus = 2\<rparr>"

definition demoCache :: FileTransformCache where
  "demoCache = constructor demoEnv ''/pub'' 500 10 False"

text \<open>The demo world with a resolver that gives \<open>/pub/b.js\<close> for every specifier.\<close>

definition protoEnv :: env where
  "protoEnv = demoEnv\<lparr>jspmResolve := (\<lambda>n p d. Inr (Some ''/pub/b.js'', Some ''esm''))\<rparr>"

text \<open>
  The demo world on a machine with one CPU, at a moment when the files have the text \<open>src\<close>,
  and the instance made there while \<open>a.js\<close> imports \<open>c\<close>, which lies outside \<open>/pub\<close>.
\<close>

definition soloEnv :: "string \<Rightarrow> env" where
  "soloEnv src = demoEnv\<lparr>readFile := (\<lambda>p. Inr src), cpus := 1\<rparr>"

definition soloCache :: FileTransformCache where
  "soloCache = constructor (soloEnv ''import c'') ''/pub'' 500 10 False"

text \<open>The demo instance with a record for \<open>a.js\<close> at address 0, with the given fields set.\<close>

definition demoWith ::
  "(FileTransformRecord \<Rightarrow> FileTransformRecord) \<Rightarrow> FileTransformCache" where
  "demoWith f =
     demoCache\<lparr>heap := (heap demoCache)(0 := f (newRecord demoEnv ''/pub/a.js'' False)),
               nextRef := 1,
               records := (records demoCache)(''/pub/a.js'' \<mapsto> Fulfilled (RecordRef 0))\<rparr>"

text \<open>The demo instance with both workers bound to a record.\<close>

definition busyCache :: FileTransformCache where
  "busyCache =
     demoCache\<lparr>workers := [\<lparr>record_w = Some 0, msgResolve = None, msgReject = None\<rparr>,
                           \<lparr>record_w = Some 4, msgResolve = None, msgReject = None\<rparr>]\<rparr>"

section \<open>Lemmas about the state helpers\<close>

lemmas upd_defs = updRecord_def updWorker_def send_def

lemmas demo_defs =
  demoWith_def demoCache_def constructor_def demoEnv_def newRecord_def demoRelative_def
  demoReply_def lastSource_def replaceWinSep_def startsWith_def endsWith_def stripSlash_def
  numeral_2_eq_2

lemmas eval_defs =
  get_def get_record_def get_phases_def get_idle_def get_result_def doHash_def doHash_body_def
  doHash_analyze_def doTransform_def doTransform_send_def assignWorker_def assignWorker_prime_def
  freeWorker_def await_reply_def getResolveMap_def resolveDep_def relResolved_def rewritten_def
  sourceMessage_def analyzeMessage_def transformMessage_def isGlobalCache_m_def refresh_def
  getMtime_def statPromise_def storeKey_def barePath_def isDewPath_def truthy_def
  notModified_def fullResult_def upd_defs Let_def idleWorker_def setEntry_def emptyObject_def

lemma sent_upd [simp]:
  "sent (updRecord st r f) = sent st"
  "sent (updWorker st i g) = sent st"
  "sent (send st i m) = sent st @ [(i, m)]"
  by (simp_all add: upd_defs)

lemma heap_upd [simp]:
  "heap (updRecord st r f) = (heap st)(r := f (heap st r))"
  "heap (updWorker st i g) = heap st"
  "heap (send st i m) = heap st"
  by (simp_all add: upd_defs)

lemma workers_upd [simp]:
  "workers (updRecord st r f) = workers st"
  "workers (updWorker st i g) = (workers st)[i := g (workers st ! i)]"
  "workers (send st i m) = workers st"
  by (simp_all add: upd_defs)

lemma transformQueue_upd [simp]:
  "transformQueue (updRecord st r f) = transformQueue st"
  "transformQueue (updWorker st i g) = transformQueue st"
  "transformQueue (send st i m) = transformQueue st"
  by (simp_all add: upd_defs)

lemma publicDir_upd [simp]:
  "publicDir (updRecord st r f) = publicDir st"
  "publicDir (updWorker st i g) = publicDir st"
  "publicDir (send st i m) = publicDir st"
  by (simp_all add: upd_defs)

lemma hashTimers_upd [simp]:
  "hashTimers (updRecord st r f) = hashTimers st"
  "hashTimers (updWorker st i g) = hashTimers st"
  "hashTimers (send st i m) = hashTimers st"
  by (simp_all add: upd_defs)

lemma records_upd [simp]:
  "records (updRecord st r f) = records st"
  "records (updWorker st i g) = records st"
  "records (send st i m) = records st"
  by (simp_all add: upd_defs)

lemma resumed_upd [simp]:
  "resumed (updRecord st r f) = resumed st"
  "resumed (updWorker st i g) = resumed st"
  "resumed (send st i m) = resumed st"
  by (simp_all add: upd_defs)

lemma production_upd [simp]:
  "production (updRecord st r f) = production st"
  "production (updWorker st i g) = production st"
  "production (send st i m) = production st"
  by (simp_all add: upd_defs)

lemma watching_c_upd [simp]:
  "watching_c (updRecord st r f) = watching_c st"
  "watching_c (updWorker st i g) = watching_c st"
  "watching_c (send st i m) = watching_c st"
  by (simp_all add: upd_defs)

lemma nextRef_upd [simp]:
  "nextRef (updRecord st r f) = nextRef st"
  "nextRef (updWorker st i g) = nextRef st"
  "nextRef (send st i m) = nextRef st"
  by (simp_all add: upd_defs)

lemma maxWatchCount_upd [simp]:
  "maxWatchCount (updRecord st r f) = maxWatchCount st"
  "maxWatchCount (updWorker st i g) = maxWatchCount st"
  "maxWatchCount (send st i m) = maxWatchCount st"
  by (simp_all add: upd_defs)

lemma nextExpiry_upd [simp]:
  "nextExpiry (updRecord st r f) = nextExpiry st"
  "nextExpiry (updWorker st i g) = nextExpiry st"
  "nextExpiry (send st i m) = nextExpiry st"
  by (simp_all add: upd_defs)

lemma clock_updRecord [simp]: "clock (updRecord st r f) = clock st"
  by (simp add: clock_def updRecord_def)

lemma clock_updWorker [simp]: "clock (updWorker st i f) = clock st"
  by (simp add: clock_def updWorker_def)

lemma clock_send [simp]: "clock (send st i m) = clock st"
  by (simp add: clock_def send_def)

lemma clock_fields [simp]:
  "clock (st\<lparr>transformQueue := q\<rparr>) = clock st"
  "clock (st\<lparr>resumed := rs\<rparr>) = clock st"
  "clock (st\<lparr>hashTimers := ts\<rparr>) = clock st"
  "clock (st\<lparr>records := m\<rparr>) = clock st"
  "clock (st\<lparr>watching_c := ws\<rparr>) = clock st"
  "clock (st\<lparr>heap := hp, nextRef := n\<rparr>) = clock st"
  by (simp_all add: clock_def)

lemma pool_updRecord [simp]: "pool (updRecord st r f) = pool st"
  by (simp add: pool_def upd_defs)

lemma pool_fields [simp]:
  "pool (st\<lparr>hashTimers := ts\<rparr>) = pool st"
  "pool (st\<lparr>records := m\<rparr>) = pool st"
  "pool (st\<lparr>watching_c := ws\<rparr>) = pool st"
  "pool (st\<lparr>heap := hp, nextRef := n\<rparr>) = pool st"
  by (simp_all add: pool_def)

section \<open>The worker pool\<close>

lemma findFree_Some:
  "findFree ws k = Some i \<Longrightarrow> k \<le> i \<and> i - k < length ws \<and> record_w (ws ! (i - k)) = None"
proof (induction ws arbitrary: k)
  case Nil
  then show ?case by simp
next
  case (Cons w ws)
  show ?case
  proof (cases "record_w w = None")
    case True
    with Cons.prems show ?thesis by simp
  next
    case False
    with Cons.prems have "findFree ws (Suc k) = Some i" by simp
    from Cons.IH[OF this] show ?thesis by (auto simp: nth_Cons' Suc_diff_le)
  qed
qed

lemma assignWorker_saturated:
  "findFree (workers st) 0 = None \<Longrightarrow>
     assignWorker e st r = (st\<lparr>transformQueue := transformQueue st @ [r]\<rparr>, Pending)"
  by (simp add: assignWorker_def)

lemma enqueue_all:
  "findFree (workers st) 0 = None \<Longrightarrow>
   foldl (\<lambda>s r. fst (assignWorker e s r)) st rs = st\<lparr>transformQueue := transformQueue st @ rs\<rparr>"
proof (induction rs arbitrary: st)
  case Nil
  then show ?case by simp
next
  case (Cons r rs)
  have "findFree (workers (st\<lparr>transformQueue := transformQueue st @ [r]\<rparr>)) 0 = None"
    using Cons.prems by simp
  from Cons.IH[OF this] Cons.prems show ?case
    by (simp add: assignWorker_saturated)
qed

lemma freeWorker_queue: "transformQueue (freeWorker st i) = tl (transformQueue st)"
  by (simp add: freeWorker_def updWorker_def Let_def split: list.splits)

lemma freeWorker_resumed:
  "resumed (freeWorker st i) =
     resumed st @ (case transformQueue st of [] \<Rightarrow> [] | r # q \<Rightarrow> [(r, i)])"
  by (simp add: freeWorker_def updWorker_def Let_def split: list.splits)

lemma freeWorker_worker:
  "i < length (workers st) \<Longrightarrow>
   workers (freeWorker st i) ! i =
     \<lparr>record_w = (case transformQueue st of [] \<Rightarrow> None | r # q \<Rightarrow> Some r),
      msgResolve = None, msgReject = None\<rparr>"
  by (simp add: freeWorker_def updWorker_def Let_def split: list.splits)

lemma free_all:
  "transformQueue (foldl freeWorker st ws) = drop (length ws) (transformQueue st) \<and>
   resumed (foldl freeWorker st ws) = resumed st @ zip (transformQueue st) ws"
proof (induction ws arbitrary: st)
  case Nil
  then show ?case by simp
next
  case (Cons w ws)
  show ?case
    by (cases "transformQueue st")
       (simp_all add: Cons.IH freeWorker_queue freeWorker_resumed drop_Suc)
qed

lemma sent_freeWorker [simp]: "sent (freeWorker st i) = sent st"
  by (simp add: freeWorker_def Let_def split: list.splits)

lemma heap_freeWorker [simp]: "heap (freeWorker st i) = heap st"
  by (simp add: freeWorker_def Let_def split: list.splits)

lemma assignWorker_idle:
  assumes ff: "findFree (workers st) 0 = Some w"
    and ack: "workerReply e (sent st @ [(w, sourceMessage e st r)]) w = DataReply a"
  shows "\<exists>st1. assignWorker e st r = (st1, Fulfilled w) \<and>
           heap st1 = heap st \<and> transformQueue st1 = transformQueue st \<and>
           publicDir st1 = publicDir st \<and> hashTimers st1 = hashTimers st \<and>
           length (workers st1) = length (workers st) \<and>
           record_w (workers st1 ! w) = Some r \<and>
           sent st1 = sent st @ [(w, sourceMessage e st r)]"
proof -
  from findFree_Some[OF ff] have "w < length (workers st)" by simp
  then show ?thesis
    using ff ack
    by (simp add: assignWorker_def assignWorker_prime_def await_reply_def upd_defs Let_def
        sourceMessage_def)
qed

text \<open>
  Claim C8. With every worker bound, \<open>assignWorker\<close> parks each caller at the end of the
  wait queue and touches no worker. Each \<open>freeWorker\<close> then clears the record and the reply
  slot of its worker, takes the waiter at the head of the queue, binds the worker to it and
  resolves its promise: after any number of calls the promises resolved are those of the
  waiters in the order in which they were parked, each with the worker freed at its turn.
\<close>

theorem worker_queue_fifo:
  assumes "findFree (workers st) 0 = None"
  shows "workers (foldl (\<lambda>s r. fst (assignWorker e s r)) st rs) = workers st \<and>
         transformQueue (foldl (\<lambda>s r. fst (assignWorker e s r)) st rs) = transformQueue st @ rs \<and>
         resumed (foldl freeWorker (foldl (\<lambda>s r. fst (assignWorker e s r)) st rs) ws)
           = resumed st @ zip (transformQueue st @ rs) ws \<and>
         transformQueue (foldl freeWorker (foldl (\<lambda>s r. fst (assignWorker e s r)) st rs) ws)
           = drop (length ws) (transformQueue st @ rs) \<and>
         (i < length (workers s) \<longrightarrow> transformQueue s = r # q \<longrightarrow>
            workers (freeWorker s i) ! i = \<lparr>record_w = Some r, msgResolve = None, msgReject = None\<rparr> \<and>
            transformQueue (freeWorker s i) = q \<and>
            resumed (freeWorker s i) = resumed s @ [(r, i)])"
  using enqueue_all[OF assms, of e rs]
    free_all[of "st\<lparr>transformQueue := transformQueue st @ rs\<rparr>" ws]
  by (simp add: freeWorker_worker freeWorker_queue freeWorker_resumed)

theorem worker_queue_fifo_witness:
  "findFree (workers busyCache) 0 = None \<and>
   transformQueue (foldl (\<lambda>s r. fst (assignWorker demoEnv s r)) busyCache [1, 2, 3]) = [1, 2, 3] \<and>
   resumed (foldl freeWorker (foldl (\<lambda>s r. fst (assignWorker demoEnv s r)) busyCache [1, 2, 3]) [1, 0])
     = [(1, 1), (2, 0)] \<and>
   transformQueue (foldl freeWorker (foldl (\<lambda>s r. fst (assignWorker demoEnv s r)) busyCache [1, 2, 3]) [1, 0])
     = [3]"
proof -
  have sat: "findFree (workers busyCache) 0 = None"
    by (simp add: busyCache_def)
  have q: "transformQueue busyCache = []" and rs: "resumed busyCache = []"
    by (simp_all add: busyCache_def demoCache_def constructor_def)
  show ?thesis
    using sat worker_queue_fifo[OF sat, of demoEnv "[1, 2, 3]" "[1, 0]"] q rs by simp
qed

section \<open>The periodic clear\<close>

lemma clock_freeWorker [simp]: "clock (freeWorker st i) = clock st"
  by (simp add: freeWorker_def Let_def split: list.splits)

lemma clock_assignWorker_prime [simp]: "clock (fst (assignWorker_prime e st r i)) = clock st"
  by (simp add: assignWorker_prime_def Let_def split: promise.splits)

lemma clock_assignWorker [simp]: "clock (fst (assignWorker e st r)) = clock st"
  by (simp add: assignWorker_def split: option.splits)

lemma clock_doHash_analyze [simp]: "clock (fst (doHash_analyze e st r h)) = clock st"
proof -
  obtain st1 p where a: "assignWorker e (updRecord st r (\<lambda>x. x\<lparr>originalSourceHash := Some h\<rparr>)) r = (st1, p)"
    by (cases "assignWorker e (updRecord st r (\<lambda>x. x\<lparr>originalSourceHash := Some h\<rparr>)) r")
  have "clock st1 = clock st"
    using clock_assignWorker[of e "updRecord st r (\<lambda>x. x\<lparr>originalSourceHash := Some h\<rparr>)" r] a by simp
  then show ?thesis
    by (simp add: doHash_analyze_def a Let_def split: promise.splits)
qed

lemma clock_doHash_body [simp]: "clock (fst (doHash_body e st r)) = clock st"
proof (cases "originalSource (heap st r)")
  case None
  then show ?thesis by (simp add: doHash_body_def)
next
  case (Some src)
  obtain st1 p where a: "doHash_analyze e st r (md5 e src) = (st1, p)"
    by (cases "doHash_analyze e st r (md5 e src)")
  have "clock st1 = clock st"
    using clock_doHash_analyze[of e st r "md5 e src"] a by simp
  then show ?thesis
    using Some a by (simp add: doHash_body_def Let_def split: promise.splits prod.splits)
qed

lemma clock_doHash [simp]: "clock (fst (doHash e st r)) = clock st"
proof -
  obtain st1 p where a: "doHash_body e st r = (st1, p)" by (cases "doHash_body e st r")
  have "clock st1 = clock st" using clock_doHash_body[of e st r] a by simp
  then show ?thesis
    by (simp add: doHash_def a split: option.splits promise.splits)
qed

lemma clock_doTransform_send [simp]: "clock (fst (doTransform_send e st r m w igc)) = clock st"
  by (simp add: doTransform_send_def Let_def split: promise.splits prod.splits)

lemma clock_doTransform [simp]: "clock (fst (doTransform e st r m w)) = clock st"
proof -
  obtain st1 p where a: "assignWorker e st r = (st1, p)" by (cases "assignWorker e st r")
  have "clock st1 = clock st" using clock_assignWorker[of e st r] a by simp
  then show ?thesis
    by (simp add: doTransform_def a Let_def split: option.splits promise.splits)
qed

lemma clock_get_result [simp]: "clock (fst (get_result x r)) = clock (fst x)"
  by (simp add: get_result_def split: prod.splits promise.splits)

lemma clock_get_idle [simp]: "clock (fst (get_idle e st r h)) = clock st"
proof -
  obtain st1 p where a: "doHash e st r = (st1, p)" by (cases "doHash e st r")
  have "clock st1 = clock st" using clock_doHash[of e st r] a by simp
  then show ?thesis
    by (simp add: get_idle_def a split: option.splits promise.splits prod.splits)
qed

lemma clock_refresh [simp]: "clock (fst (refresh e st fp r)) = clock st"
  by (simp add: refresh_def split: promise.splits sum.splits)

lemma clock_get_phases [simp]: "clock (fst (get_phases e st fp k r h)) = clock st"
proof -
  obtain st1 p where a: "get_idle e st r h = (st1, p)" by (cases "get_idle e st r h")
  have c1: "clock st1 = clock st" using clock_get_idle[of e st r h] a by simp
  obtain st2 q where b: "refresh e st1 fp r = (st2, q)" by (cases "refresh e st1 fp r")
  have c2: "clock st2 = clock st" using clock_refresh[of e st1 fp r] b c1 by simp
  show ?thesis
    using c1 c2
    by (simp add: get_phases_def a b Let_def split: option.splits promise.splits prod.splits)
qed

lemma clock_watch [simp]: "clock (fst (watch e st r)) = clock st"
  by (simp add: watch_def Let_def split: promise.splits option.splits)

lemma clock_createRecord_alloc [simp]: "clock (fst (createRecord_alloc e st fp d)) = clock st"
proof -
  let ?st1 = "st\<lparr>heap := (heap st)(nextRef st := newRecord e fp d), nextRef := Suc (nextRef st)\<rparr>"
  obtain st2 w where a: "watch e ?st1 (nextRef st) = (st2, w)"
    by (cases "watch e ?st1 (nextRef st)")
  have "clock st2 = clock st" using clock_watch[of e ?st1 "nextRef st"] a by simp
  then show ?thesis
    by (simp add: createRecord_alloc_def a Let_def split: sum.splits option.splits)
qed

lemma clock_createRecord [simp]: "clock (fst (createRecord e st fp d)) = clock st"
  by (simp add: createRecord_def split: sum.splits)

lemma clock_get_record [simp]: "clock (fst (get_record e st fp)) = clock st"
proof -
  obtain s p where a: "createRecord e st (barePath fp) (isDewPath fp) = (s, p)"
    by (cases "createRecord e st (barePath fp) (isDewPath fp)")
  have "clock s = clock st"
    using clock_createRecord[of e st "barePath fp" "isDewPath fp"] a by simp
  then show ?thesis
    by (simp add: get_record_def a split: option.splits promise.splits)
qed

lemma clock_get [simp]: "clock (fst (get e st fp h)) = clock st"
proof -
  obtain s p where a: "get_record e st fp = (s, p)" by (cases "get_record e st fp")
  have "clock s = clock st" using clock_get_record[of e st fp] a by simp
  then show ?thesis
    by (simp add: get_def a split: promise.splits recval.splits)
qed

lemma clock_onChange [simp]: "clock (fst (onChange e st r ty)) = clock st"
proof (cases "readFile e (path (heap st r))")
  case (Inl err)
  then show ?thesis by (simp add: onChange_def)
next
  case (Inr src)
  let ?st1 = "updRecord st r (\<lambda>x. x\<lparr>originalSource := Some src\<rparr>)"
  obtain st2 p where a: "doHash e ?st1 r = (st2, p)" by (cases "doHash e ?st1 r")
  have c: "clock st2 = clock st" using clock_doHash[of e ?st1 r] a by simp
  show ?thesis
    using c Inr
    by (simp add: onChange_def a Let_def split: option.splits promise.splits prod.splits)
qed

lemma clock_hashTimeout [simp]: "clock (hashTimeout st r) = clock st"
  by (simp add: hashTimeout_def)

lemma clock_step: "cacheInterval st = None \<Longrightarrow> clock (step st x) = clock st"
proof -
  assume n: "cacheInterval st = None"
  obtain e ev where x: "x = (e, ev)" by (cases x)
  show ?thesis
    using n by (cases ev) (simp_all add: step_def x)
qed

lemma clock_run: "cacheInterval st = None \<Longrightarrow> clock (run st evs) = clock st"
proof (induction evs arbitrary: st)
  case Nil
  then show ?case by (simp add: run_def)
next
  case (Cons x evs)
  have c: "clock (step st x) = clock st" using Cons.prems by (rule clock_step)
  then have "cacheInterval (step st x) = None" using Cons.prems by (simp add: clock_def)
  from Cons.IH[OF this] c show ?case by (simp add: run_def)
qed

text \<open>
  Claim C10. Constructed with a \<open>cacheClearInterval\<close> of zero or less, the instance has no
  periodic timer; whatever requests, watch events and timer events follow, none installs
  one, the resolver cache keeps the object the constructor gave it, and \<open>nextExpiry\<close> stays
  at the time of construction plus \<open>cacheClearInterval\<close>.
\<close>

theorem no_timer_keeps_expiry:
  assumes "cacheClearInterval0 \<le> 0"
  shows "cacheInterval (constructor e publicDir0 cacheClearInterval0 maxWatchCount0 production0) = None \<and>
         cacheInterval (run (constructor e publicDir0 cacheClearInterval0 maxWatchCount0 production0) evs) = None \<and>
         resolveCache (run (constructor e publicDir0 cacheClearInterval0 maxWatchCount0 production0) evs) = InitialBag \<and>
         nextExpiry (run (constructor e publicDir0 cacheClearInterval0 maxWatchCount0 production0) evs)
           = now e + cacheClearInterval0"
proof -
  let ?st = "constructor e publicDir0 cacheClearInterval0 maxWatchCount0 production0"
  have n: "cacheInterval ?st = None" using assms by (simp add: constructor_def)
  have "clock (run ?st evs) = clock ?st" using n by (rule clock_run)
  then show ?thesis using n by (simp add: clock_def constructor_def)
qed

theorem no_timer_keeps_expiry_witness:
  "(0::int) \<le> 0 \<and>
   nextExpiry (run (constructor demoEnv ''/pub'' 0 10 False)
     [(demoEnv, IntervalTick), (demoEnv\<lparr>now := 2000\<rparr>, Get ''/pub/a.js'' None),
      (demoEnv\<lparr>now := 3000\<rparr>, IntervalTick)]) = 1000 \<and>
   resolveCache (run (constructor demoEnv ''/pub'' 0 10 False)
     [(demoEnv, IntervalTick), (demoEnv\<lparr>now := 2000\<rparr>, Get ''/pub/a.js'' None),
      (demoEnv\<lparr>now := 3000\<rparr>, IntervalTick)]) = InitialBag"
  using no_timer_keeps_expiry[of 0 demoEnv "''/pub''" 10 False
      "[(demoEnv, IntervalTick), (demoEnv\<lparr>now := 2000\<rparr>, Get ''/pub/a.js'' None),
        (demoEnv\<lparr>now := 3000\<rparr>, IntervalTick)]"]
  by (simp add: demoEnv_def)

section \<open>The resolve map\<close>

lemma resolveDeps_not_Pending: "resolveDeps e pub p d base ds m h \<noteq> Pending"
  by (induction ds arbitrary: m h) (simp_all split: sum.splits option.splits prod.splits)

lemma getResolveMap_not_Pending: "getResolveMap e st r \<noteq> Pending"
  by (simp add: getResolveMap_def Let_def resolveDeps_not_Pending split: option.splits)

lemma getResolveMap_cong:
  "publicDir st' = publicDir st \<Longrightarrow> path (heap st' r) = path (heap st r) \<Longrightarrow>
   dew (heap st' r) = dew (heap st r) \<Longrightarrow> deps (heap st' r) = deps (heap st r) \<Longrightarrow>
   getResolveMap e st' r = getResolveMap e st r"
  by (simp add: getResolveMap_def Let_def split: option.splits)

lemma resolveDeps_ok:
  "list_all (depInside e pub p d) ds \<Longrightarrow>
   \<exists>m'. resolveDeps e pub p d base ds m h
           = Fulfilled (m', md5 e (h @ concat (map (depHashed e p d) ds)))
      \<and> (\<forall>dep. dep \<noteq> ''__proto__'' \<longrightarrow> props m' dep =
            (if dep \<in> set ds
             then (case depEntry e p d base dep of None \<Rightarrow> props m dep | Some v \<Rightarrow> Some v)
             else props m dep))"
proof (induction ds arbitrary: m h)
  case Nil
  then show ?case by simp
next
  case (Cons x ds)
  from Cons.prems have ins: "depInside e pub p d x" and rest: "list_all (depInside e pub p d) ds"
    by simp_all
  show ?case
  proof (cases "resolveDep e p d x")
    case (Inl err)
    with ins show ?thesis by (simp add: depInside_def)
  next
    case (Inr y)
    obtain resolved format where y: "y = (resolved, format)" by (cases y)
    show ?thesis
    proof (cases resolved)
      case None
      from Cons.IH[OF rest, of "setEntry m x None" "h @ x @ ''@empty''"]
      obtain m' where
        m': "resolveDeps e pub p d base ds (setEntry m x None) (h @ x @ ''@empty'')
               = Fulfilled (m', md5 e ((h @ x @ ''@empty'') @ concat (map (depHashed e p d) ds)))"
        and mp: "\<forall>dep. dep \<noteq> ''__proto__'' \<longrightarrow> props m' dep =
            (if dep \<in> set ds
             then (case depEntry e p d base dep of
                     None \<Rightarrow> props (setEntry m x None) dep | Some v \<Rightarrow> Some v)
             else props (setEntry m x None) dep)"
        by blast
      have de: "depEntry e p d base x = Some None" and dh: "depHashed e p d x = x @ ''@empty''"
        using Inr y None by (simp_all add: depEntry_def depHashed_def)
      show ?thesis
        using m' mp Inr y None de dh
        by (auto simp: setEntry_def split: option.splits)
    next
      case (Some res)
      with ins Inr y have pub: "startsWith res pub" by (simp add: depInside_def)
      let ?rw = "rewritten d format (relResolved e base res)"
      let ?m1 = "if x \<noteq> ?rw then setEntry m x (Some ?rw) else m"
      from Cons.IH[OF rest, of ?m1 "h @ x @ res"]
      obtain m' where
        m': "resolveDeps e pub p d base ds ?m1 (h @ x @ res)
               = Fulfilled (m', md5 e ((h @ x @ res) @ concat (map (depHashed e p d) ds)))"
        and mp: "\<forall>dep. dep \<noteq> ''__proto__'' \<longrightarrow> props m' dep =
            (if dep \<in> set ds
             then (case depEntry e p d base dep of None \<Rightarrow> props ?m1 dep | Some v \<Rightarrow> Some v)
             else props ?m1 dep)"
        by blast
      have de: "depEntry e p d base x = (if x \<noteq> ?rw then Some (Some ?rw) else None)"
        and dh: "depHashed e p d x = x @ res"
        using Inr y Some by (simp_all add: depEntry_def depHashed_def)
      show ?thesis
        using m' mp Inr y Some de dh pub
        by (auto simp: setEntry_def split: option.splits if_splits)
    qed
  qed
qed

lemma resolveDeps_proto_path:
  "list_all (depInside e pub p d) ds \<Longrightarrow>
   resolveDep e p d ''__proto__'' = Inr (Some res, format) \<Longrightarrow>
   \<not> protoNull m \<Longrightarrow> props m ''__proto__'' = None \<Longrightarrow>
   \<exists>m' h'. resolveDeps e pub p d base ds m h = Fulfilled (m', h') \<and>
     \<not> protoNull m' \<and> props m' ''__proto__'' = None"
proof (induction ds arbitrary: m h)
  case Nil
  then show ?case by simp
next
  case (Cons x ds)
  from Cons.prems have ins: "depInside e pub p d x" and rest: "list_all (depInside e pub p d) ds"
    by simp_all
  show ?case
  proof (cases "resolveDep e p d x")
    case (Inl err)
    with ins show ?thesis by (simp add: depInside_def)
  next
    case (Inr y)
    obtain resolved fm where y: "y = (resolved, fm)" by (cases y)
    show ?thesis
    proof (cases resolved)
      case None
      with Inr y Cons.prems(2) have nx: "x \<noteq> ''__proto__''" by auto
      have "\<not> protoNull (setEntry m x None)" "props (setEntry m x None) ''__proto__'' = None"
        using nx Cons.prems(3,4) by (simp_all add: setEntry_def)
      from Cons.IH[OF rest Cons.prems(2) this, of "h @ x @ ''@empty''"]
      show ?thesis using Inr y None by simp
    next
      case (Some r1)
      with ins Inr y have pub: "startsWith r1 pub" by (simp add: depInside_def)
      let ?rw = "rewritten d fm (relResolved e base r1)"
      let ?m1 = "if x \<noteq> ?rw then setEntry m x (Some ?rw) else m"
      have "\<not> protoNull ?m1" "props ?m1 ''__proto__'' = None"
        using Cons.prems(3,4) by (simp_all add: setEntry_def)
      from Cons.IH[OF rest Cons.prems(2) this, of "h @ x @ r1"]
      show ?thesis using Inr y Some pub by simp
    qed
  qed
qed

text \<open>
  For a record whose dependencies all resolve, each to the empty module or under the public
  directory, \<open>getResolveMap\<close> succeeds, and its hash is the digest of the dependencies in
  order, each followed by its resolved path, or by \<open>@empty\<close> for the empty module. At every
  key but \<open>__proto__\<close> the map is as one expects: it has no entry for a specifier that is not
  a dependency; it has the \<open>null\<close> entry for a dependency that resolves to the empty module;
  for any other dependency it has an entry if and only if the rewritten specifier differs
  from the dependency, and the entry is then the rewritten specifier.
\<close>

lemma getResolveMap_other_keys:
  assumes "deps (heap st r) = Some ds"
    and "list_all (depInside e (publicDir st) (path (heap st r)) (dew (heap st r))) ds"
  shows "\<exists>m. getResolveMap e st r
               = Fulfilled (m, md5 e (concat (map (depHashed e (path (heap st r)) (dew (heap st r))) ds)))
           \<and> (\<forall>dep. dep \<noteq> ''__proto__'' \<longrightarrow> dep \<notin> set ds \<longrightarrow> props m dep = None)
           \<and> (\<forall>dep format. dep \<noteq> ''__proto__'' \<longrightarrow> dep \<in> set ds \<longrightarrow>
                 resolveDep e (path (heap st r)) (dew (heap st r)) dep = Inr (None, format) \<longrightarrow>
                 props m dep = Some None)
           \<and> (\<forall>dep res format. dep \<noteq> ''__proto__'' \<longrightarrow> dep \<in> set ds \<longrightarrow>
                 resolveDep e (path (heap st r)) (dew (heap st r)) dep = Inr (Some res, format) \<longrightarrow>
                 props m dep =
                   (if dep \<noteq> rewritten (dew (heap st r)) format
                                (relResolved e (dirname e (path (heap st r))) res)
                    then Some (Some (rewritten (dew (heap st r)) format
                                (relResolved e (dirname e (path (heap st r))) res)))
                    else None))"
proof -
  from resolveDeps_ok[OF assms(2), of "dirname e (path (heap st r))" emptyObject "[]"]
  obtain m where
    m0: "resolveDeps e (publicDir st) (path (heap st r)) (dew (heap st r))
          (dirname e (path (heap st r))) ds emptyObject []
        = Fulfilled (m, md5 e ([] @ concat (map (depHashed e (path (heap st r)) (dew (heap st r))) ds)))"
    and mp0: "\<forall>dep. dep \<noteq> ''__proto__'' \<longrightarrow> props m dep =
            (if dep \<in> set ds
             then (case depEntry e (path (heap st r)) (dew (heap st r))
                          (dirname e (path (heap st r))) dep of
                     None \<Rightarrow> props emptyObject dep | Some v \<Rightarrow> Some v)
             else props emptyObject dep)"
    by blast
  from m0 have
    m: "resolveDeps e (publicDir st) (path (heap st r)) (dew (heap st r))
          (dirname e (path (heap st r))) ds emptyObject []
        = Fulfilled (m, md5 e (concat (map (depHashed e (path (heap st r)) (dew (heap st r))) ds)))"
    by simp
  from mp0 have
    mp: "\<And>dep. dep \<noteq> ''__proto__'' \<Longrightarrow> props m dep =
            (if dep \<in> set ds
             then (case depEntry e (path (heap st r)) (dew (heap st r))
                          (dirname e (path (heap st r))) dep of
                     None \<Rightarrow> None | Some v \<Rightarrow> Some v)
             else None)"
    by (simp add: emptyObject_def split: option.splits)
  have "getResolveMap e st r
          = Fulfilled (m, md5 e (concat (map (depHashed e (path (heap st r)) (dew (heap st r))) ds)))"
    using assms(1) m by (simp add: getResolveMap_def Let_def)
  moreover have "\<forall>dep. dep \<noteq> ''__proto__'' \<longrightarrow> dep \<notin> set ds \<longrightarrow> props m dep = None"
    using mp by simp
  moreover have "\<forall>dep format. dep \<noteq> ''__proto__'' \<longrightarrow> dep \<in> set ds \<longrightarrow>
                 resolveDep e (path (heap st r)) (dew (heap st r)) dep = Inr (None, format) \<longrightarrow>
                 props m dep = Some None"
    using mp by (simp add: depEntry_def)
  moreover have "\<forall>dep res format. dep \<noteq> ''__proto__'' \<longrightarrow> dep \<in> set ds \<longrightarrow>
                 resolveDep e (path (heap st r)) (dew (heap st r)) dep = Inr (Some res, format) \<longrightarrow>
                 props m dep =
                   (if dep \<noteq> rewritten (dew (heap st r)) format
                                (relResolved e (dirname e (path (heap st r))) res)
                    then Some (Some (rewritten (dew (heap st r)) format
                                (relResolved e (dirname e (path (heap st r))) res)))
                    else None)"
    using mp by (simp add: depEntry_def)
  ultimately show ?thesis by blast
qed

text \<open>
  At the key \<open>__proto__\<close> the map has no entry when that specifier resolves to a path,
  whichever dependencies the record has.
\<close>

lemma getResolveMap_proto_path:
  assumes "deps (heap st r) = Some ds"
    and "list_all (depInside e (publicDir st) (path (heap st r)) (dew (heap st r))) ds"
    and "resolveDep e (path (heap st r)) (dew (heap st r)) ''__proto__'' = Inr (Some res, format)"
  shows "\<exists>m h. getResolveMap e st r = Fulfilled (m, h) \<and> props m ''__proto__'' = None"
proof -
  have "\<not> protoNull emptyObject" "props emptyObject ''__proto__'' = None"
    by (simp_all add: emptyObject_def)
  from resolveDeps_proto_path[OF assms(2) assms(3) this, of "dirname e (path (heap st r))" "[]"]
  show ?thesis using assms(1) by (auto simp: getResolveMap_def Let_def)
qed

text \<open>
  Claim C3, where the code departs from it. The record of \<open>a.js\<close> has the dependencies
  \<open>__proto__\<close> and \<open>b\<close>, and the resolver gives \<open>/pub/b.js\<close> for both. The rewritten specifier
  \<open>./b.js\<close> differs from either. The loop goes past both and feeds both pairs to the hash,
  but the map it returns has the entry of \<open>b\<close> alone: the assignment to the key \<open>__proto__\<close>
  has stored nothing. In the demo world, where \<open>__proto__\<close> resolves to the empty module, no
  \<open>null\<close> entry is stored for it either; the object has lost its prototype instead.
\<close>

theorem getResolveMap_loses_proto_key:
  "resolveDep protoEnv ''/pub/a.js'' False ''__proto__'' = Inr (Some ''/pub/b.js'', Some ''esm'') \<and>
   rewritten False (Some ''esm'') (relResolved protoEnv ''/pub'' ''/pub/b.js'') = ''./b.js'' \<and>
   getResolveMap protoEnv (demoWith (\<lambda>x. x\<lparr>deps := Some [''__proto__'', ''b'']\<rparr>)) 0
     = Fulfilled (\<lparr>props = [''b'' \<mapsto> Some ''./b.js''], protoNull = False\<rparr>,
         ''md5:__proto__/pub/b.jsb/pub/b.js'') \<and>
   resolveDep demoEnv ''/pub/a.js'' False ''__proto__'' = Inr (None, Some ''builtin'') \<and>
   getResolveMap demoEnv (demoWith (\<lambda>x. x\<lparr>deps := Some [''__proto__'']\<rparr>)) 0
     = Fulfilled (\<lparr>props = Map.empty, protoNull = True\<rparr>, ''md5:__proto__@empty'')"
  by (simp add: getResolveMap_def resolveDep_def relResolved_def rewritten_def setEntry_def
      emptyObject_def protoEnv_def demo_defs Let_def)

section \<open>The hash phase\<close>

text \<open>
  Claim C7. In the hash phase of a record that is not a JSON file: if the hash of the
  current source differs from the stored one, and a worker is idle and acknowledges the
  source and answers the analysis, then the first idle worker is bound to the record, the
  source message and the analysis message are sent to it, the stored hash becomes the
  current one, the dependencies become those of the reply, and the worker is the one the
  phase returns. If the hashes are equal, then no worker, wait queue or message changes,
  the dependencies stay, and the phase returns no worker. In both cases the phase settles:
  it fails only with the error of the resolve map.
\<close>

theorem doHash_analysis_frame:
  assumes hp: "hashPromise (heap st r) = None"
    and src: "originalSource (heap st r) = Some src"
    and nj: "\<not> endsWith (path (heap st r)) ''.json''"
  shows "(originalSourceHash (heap st r) \<noteq> Some (md5 e src) \<longrightarrow>
          findFree (workers st) 0 = Some i \<longrightarrow>
          workerReply e (sent st @ [(i, sourceMessage e st r)]) i = DataReply a \<longrightarrow>
          workerReply e (sent st @ [(i, sourceMessage e st r), (i, analyzeMessage (heap st r))]) i
            = DataReply d \<longrightarrow>
          (case doHash e st r of
             (st', out) \<Rightarrow>
               record_w (workers st' ! i) = Some r \<and>
               sent st' = sent st @ [(i, sourceMessage e st r), (i, analyzeMessage (heap st r))] \<and>
               deps (heap st' r) = deps_of d \<and>
               originalSourceHash (heap st' r) = Some (md5 e src) \<and>
               (case out of
                  Fulfilled (resolveMap, worker) \<Rightarrow> worker = Some i
                | Rejected err \<Rightarrow> getResolveMap e st' r = Rejected err
                | Pending \<Rightarrow> False))) \<and>
         (originalSourceHash (heap st r) = Some (md5 e src) \<longrightarrow>
          (case doHash e st r of
             (st', out) \<Rightarrow>
               workers st' = workers st \<and>
               transformQueue st' = transformQueue st \<and>
               sent st' = sent st \<and>
               deps (heap st' r) = deps (heap st r) \<and>
               originalSourceHash (heap st' r) = originalSourceHash (heap st r) \<and>
               (case out of
                  Fulfilled (resolveMap, worker) \<Rightarrow> worker = None
                | Rejected err \<Rightarrow> getResolveMap e st r = Rejected err
                | Pending \<Rightarrow> False)))"
proof (intro conjI impI)
  assume ne: "originalSourceHash (heap st r) \<noteq> Some (md5 e src)"
    and ff: "findFree (workers st) 0 = Some i"
    and ack: "workerReply e (sent st @ [(i, sourceMessage e st r)]) i = DataReply a"
    and an: "workerReply e (sent st @ [(i, sourceMessage e st r), (i, analyzeMessage (heap st r))]) i
            = DataReply d"
  from findFree_Some[OF ff] have il: "i < length (workers st)" by simp
  show "case doHash e st r of
             (st', out) \<Rightarrow>
               record_w (workers st' ! i) = Some r \<and>
               sent st' = sent st @ [(i, sourceMessage e st r), (i, analyzeMessage (heap st r))] \<and>
               deps (heap st' r) = deps_of d \<and>
               originalSourceHash (heap st' r) = Some (md5 e src) \<and>
               (case out of
                  Fulfilled (resolveMap, worker) \<Rightarrow> worker = Some i
                | Rejected err \<Rightarrow> getResolveMap e st' r = Rejected err
                | Pending \<Rightarrow> False)"
    using hp src nj ne ff ack an il
    apply (simp add: doHash_def doHash_body_def doHash_analyze_def assignWorker_def
        assignWorker_prime_def await_reply_def upd_defs Let_def sourceMessage_def analyzeMessage_def
        getResolveMap_def
        split: promise.splits prod.splits option.splits)
    apply (auto simp: resolveDeps_not_Pending)
    done
next
  assume eq: "originalSourceHash (heap st r) = Some (md5 e src)"
  show "case doHash e st r of
             (st', out) \<Rightarrow>
               workers st' = workers st \<and>
               transformQueue st' = transformQueue st \<and>
               sent st' = sent st \<and>
               deps (heap st' r) = deps (heap st r) \<and>
               originalSourceHash (heap st' r) = originalSourceHash (heap st r) \<and>
               (case out of
                  Fulfilled (resolveMap, worker) \<Rightarrow> worker = None
                | Rejected err \<Rightarrow> getResolveMap e st r = Rejected err
                | Pending \<Rightarrow> False)"
    using hp src nj eq
    apply (simp add: doHash_def doHash_body_def upd_defs Let_def getResolveMap_def
        split: promise.splits prod.splits option.splits)
    apply (auto simp: resolveDeps_not_Pending)
    done
qed

theorem doHash_analysis_frame_witness:
  "hashPromise (heap (demoWith (\<lambda>x. x\<lparr>originalSource := Some ''import b''\<rparr>)) 0) = None \<and>
   originalSource (heap (demoWith (\<lambda>x. x\<lparr>originalSource := Some ''import b''\<rparr>)) 0) = Some ''import b'' \<and>
   \<not> endsWith (path (heap (demoWith (\<lambda>x. x\<lparr>originalSource := Some ''import b''\<rparr>)) 0)) ''.json'' \<and>
   originalSourceHash (heap (demoWith (\<lambda>x. x\<lparr>originalSource := Some ''import b''\<rparr>)) 0)
     \<noteq> Some (md5 demoEnv ''import b'') \<and>
   findFree (workers (demoWith (\<lambda>x. x\<lparr>originalSource := Some ''import b''\<rparr>))) 0 = Some 0 \<and>
   deps (heap (fst (doHash demoEnv (demoWith (\<lambda>x. x\<lparr>originalSource := Some ''import b''\<rparr>)) 0)) 0)
     = Some [''b''] \<and>
   record_w (workers (fst (doHash demoEnv (demoWith (\<lambda>x. x\<lparr>originalSource := Some ''import b''\<rparr>)) 0)) ! 0)
     = Some 0 \<and>
   originalSourceHash (heap (demoWith (\<lambda>x. x\<lparr>originalSource := Some ''import b'',
       originalSourceHash := Some ''md5:import b'', deps := Some [''c'']\<rparr>)) 0)
     = Some (md5 demoEnv ''import b'') \<and>
   deps (heap (fst (doHash demoEnv (demoWith (\<lambda>x. x\<lparr>originalSource := Some ''import b'',
       originalSourceHash := Some ''md5:import b'', deps := Some [''c'']\<rparr>)) 0)) 0) = Some [''c''] \<and>
   workers (fst (doHash demoEnv (demoWith (\<lambda>x. x\<lparr>originalSource := Some ''import b'',
       originalSourceHash := Some ''md5:import b'', deps := Some [''c'']\<rparr>)) 0))
     = [idleWorker, idleWorker]"
proof -
  let ?st = "demoWith (\<lambda>x. x\<lparr>originalSource := Some ''import b''\<rparr>)"
  let ?st2 = "demoWith (\<lambda>x. x\<lparr>originalSource := Some ''import b'',
       originalSourceHash := Some ''md5:import b'', deps := Some [''c'']\<rparr>)"
  have h1: "hashPromise (heap ?st 0) = None" "originalSource (heap ?st 0) = Some ''import b''"
    "\<not> endsWith (path (heap ?st 0)) ''.json''"
    "originalSourceHash (heap ?st 0) \<noteq> Some (md5 demoEnv ''import b'')"
    "findFree (workers ?st) 0 = Some 0"
    by (simp_all add: demo_defs idleWorker_def)
  have r1: "workerReply demoEnv (sent ?st @ [(0, sourceMessage demoEnv ?st 0)]) 0
              = DataReply (ReplyData None None None)"
    and r2: "workerReply demoEnv
               (sent ?st @ [(0, sourceMessage demoEnv ?st 0), (0, analyzeMessage (heap ?st 0))]) 0
              = DataReply (ReplyData (Some [''b'']) None None)"
    by (simp_all add: demo_defs sourceMessage_def analyzeMessage_def)
  have h2: "hashPromise (heap ?st2 0) = None" "originalSource (heap ?st2 0) = Some ''import b''"
    "\<not> endsWith (path (heap ?st2 0)) ''.json''"
    "originalSourceHash (heap ?st2 0) = Some (md5 demoEnv ''import b'')"
    "deps (heap ?st2 0) = Some [''c'']" "workers ?st2 = [idleWorker, idleWorker]"
    by (simp_all add: demo_defs numeral_2_eq_2)
  have a: "deps (heap (fst (doHash demoEnv ?st 0)) 0) = Some [''b''] \<and>
           record_w (workers (fst (doHash demoEnv ?st 0)) ! 0) = Some 0"
    using doHash_analysis_frame[OF h1(1) h1(2) h1(3), of demoEnv 0
        "ReplyData None None None" "ReplyData (Some [''b'']) None None"] h1(4) h1(5) r1 r2
    by (simp split: prod.splits)
  have b: "deps (heap (fst (doHash demoEnv ?st2 0)) 0) = Some [''c''] \<and>
           workers (fst (doHash demoEnv ?st2 0)) = [idleWorker, idleWorker]"
    using doHash_analysis_frame[OF h2(1) h2(2) h2(3), of demoEnv] h2(4) h2(5) h2(6)
    by (simp split: prod.splits)
  show ?thesis using h1 h2(4) a b by simp
qed

section \<open>Requests whose hash is known\<close>

lemma quiet_refl [simp]: "quiet st st"
  by (simp add: quiet_def)

lemma quiet_trans: "quiet st st1 \<Longrightarrow> quiet st1 st2 \<Longrightarrow> quiet st st2"
  by (auto simp: quiet_def)

lemma quiet_same: "sent st' = sent st \<Longrightarrow> quiet st st'"
  by (simp add: quiet_def)

lemma quiet_from: "sent st0 = sent st \<Longrightarrow> quiet st0 st' \<Longrightarrow> quiet st st'"
  by (simp add: quiet_def)

lemma quiet_to: "quiet st st1 \<Longrightarrow> sent st' = sent st1 \<Longrightarrow> quiet st st'"
  by (simp add: quiet_def)

lemma not_transform_source [simp]: "\<not> isTransformMessage (i, sourceMessage e st r)"
  by (simp add: isTransformMessage_def sourceMessage_def startsWith_def)

lemma not_transform_analyze [simp]: "\<not> isTransformMessage (i, analyzeMessage rec)"
  by (simp add: isTransformMessage_def analyzeMessage_def startsWith_def)

lemma quiet_assignWorker: "quiet st (fst (assignWorker e st r))"
  by (simp add: quiet_def assignWorker_def assignWorker_prime_def Let_def
      split: option.splits promise.splits)

lemma quiet_doHash_analyze: "quiet st (fst (doHash_analyze e st r h))"
proof -
  let ?st0 = "updRecord st r (\<lambda>x. x\<lparr>originalSourceHash := Some h\<rparr>)"
  obtain st1 p where a: "assignWorker e ?st0 r = (st1, p)" by (cases "assignWorker e ?st0 r")
  have "quiet ?st0 st1" using quiet_assignWorker[of ?st0 e r] a by simp
  then have q: "quiet st st1" by (simp add: quiet_def)
  show ?thesis
    using q by (auto simp: doHash_analyze_def a Let_def quiet_def split: promise.splits)
qed

lemma quiet_doHash_body: "quiet st (fst (doHash_body e st r))"
proof (cases "originalSource (heap st r)")
  case None
  then show ?thesis by (simp add: doHash_body_def)
next
  case (Some src)
  obtain st1 p where a: "doHash_analyze e st r (md5 e src) = (st1, p)"
    by (cases "doHash_analyze e st r (md5 e src)")
  have q: "quiet st st1" using quiet_doHash_analyze[of st e r "md5 e src"] a by simp
  show ?thesis
    using Some a q
    by (auto simp: doHash_body_def Let_def quiet_def split: promise.splits prod.splits)
qed

lemma quiet_doHash: "quiet st (fst (doHash e st r))"
proof -
  obtain st1 p where a: "doHash_body e st r = (st1, p)" by (cases "doHash_body e st r")
  have q: "quiet st st1" using quiet_doHash_body[of st e r] a by simp
  show ?thesis
    using q by (auto simp: doHash_def a quiet_def split: option.splits promise.splits)
qed

lemma pool_refresh [simp]: "pool (fst (refresh e st fp r)) = pool st"
  by (simp add: refresh_def split: promise.splits sum.splits)

lemma pool_watch [simp]: "pool (fst (watch e st r)) = pool st"
  by (simp add: watch_def Let_def split: promise.splits option.splits)

lemma pool_createRecord_alloc [simp]: "pool (fst (createRecord_alloc e st fp d)) = pool st"
proof -
  let ?st1 = "st\<lparr>heap := (heap st)(nextRef st := newRecord e fp d), nextRef := Suc (nextRef st)\<rparr>"
  obtain st2 w where a: "watch e ?st1 (nextRef st) = (st2, w)"
    by (cases "watch e ?st1 (nextRef st)")
  have "pool st2 = pool st" using pool_watch[of e ?st1 "nextRef st"] a by simp
  then show ?thesis
    by (simp add: createRecord_alloc_def a Let_def split: sum.splits option.splits)
qed

lemma pool_createRecord [simp]: "pool (fst (createRecord e st fp d)) = pool st"
  by (simp add: createRecord_def split: sum.splits)

lemma pool_get_record [simp]: "pool (fst (get_record e st fp)) = pool st"
proof -
  obtain s p where a: "createRecord e st (barePath fp) (isDewPath fp) = (s, p)"
    by (cases "createRecord e st (barePath fp) (isDewPath fp)")
  have "pool s = pool st" using pool_createRecord[of e st "barePath fp" "isDewPath fp"] a by simp
  then show ?thesis
    by (simp add: get_record_def a split: option.splits promise.splits)
qed

lemma pool_sent: "pool st' = pool st \<Longrightarrow> sent st' = sent st"
  by (simp add: pool_def)

lemma get_idle_match:
  assumes dh: "doHash e st r = (st2, Fulfilled (resolveMap, worker))"
    and fh: "fullHash (heap st2 r) = Some h" and h: "h \<noteq> []"
  shows "get_idle e st r (Some h)
           = ((case worker of Some w \<Rightarrow> freeWorker st2 w | None \<Rightarrow> st2),
              Fulfilled (Some (notModified (Some h) (heap st2 r))))"
  using assms by (simp add: get_idle_def truthy_def)

text \<open>
  Claim C1. Take a request with a known hash \<open>h\<close>, not empty as no digest is, for a path
  whose handle gives a record. If the record has a transform in place and no hash phase,
  and its \<open>fullHash\<close> is \<open>h\<close>, the request returns at once: source and source map absent,
  hash \<open>h\<close>, nothing sent. Otherwise, if the hash phase of the request settles with
  \<open>fullHash\<close> equal to \<open>h\<close>, the request returns source and source map absent and hash
  \<open>h\<close>; from its start to its end no \<open>transform-*\<close> message is sent, and if the request ran
  the hash phase itself, the worker that the phase returned is freed.
\<close>

theorem get_not_modified:
  assumes h: "h \<noteq> []"
    and gr: "get_record e st filePath0 = (st1, Fulfilled (RecordRef r))"
  shows "(hashPromise (heap st1 r) = None \<and> transformPromise (heap st1 r) \<noteq> None \<and>
          fullHash (heap st1 r) = Some h \<longrightarrow>
            get e st filePath0 (Some h)
              = (st1, Fulfilled (Some \<lparr>source_out = None, sourceMap_out = None, hash_out = Some h,
                                        isGlobalCache_out = isGlobalCache (heap st1 r)\<rparr>)) \<and>
            sent st1 = sent st) \<and>
         ((hashPromise (heap st1 r) \<noteq> None \<or> transformPromise (heap st1 r) = None) \<and>
          doHash e st1 r = (st2, Fulfilled (resolveMap, worker)) \<and>
          fullHash (heap st2 r) = Some h \<longrightarrow>
            (case get e st filePath0 (Some h) of
               (st', out) \<Rightarrow>
                 out = Fulfilled (Some \<lparr>source_out = None, sourceMap_out = None, hash_out = Some h,
                                         isGlobalCache_out = isGlobalCache (heap st2 r)\<rparr>) \<and>
                 (\<exists>ms. sent st' = sent st @ ms \<and> list_all (\<lambda>x. \<not> isTransformMessage x) ms) \<and>
                 (hashPromise (heap st1 r) = None \<longrightarrow>
                    (case worker of
                       None \<Rightarrow> workers st' = workers st2 \<and> transformQueue st' = transformQueue st2
                     | Some w \<Rightarrow>
                         workers st' = workers (freeWorker st2 w) \<and>
                         transformQueue st' = transformQueue (freeWorker st2 w) \<and>
                         resumed st' = resumed (freeWorker st2 w)))))"
proof (intro conjI impI)
  assume a: "hashPromise (heap st1 r) = None \<and> transformPromise (heap st1 r) \<noteq> None \<and>
          fullHash (heap st1 r) = Some h"
  then show "get e st filePath0 (Some h)
              = (st1, Fulfilled (Some \<lparr>source_out = None, sourceMap_out = None, hash_out = Some h,
                                        isGlobalCache_out = isGlobalCache (heap st1 r)\<rparr>))"
    using h gr by (auto simp: get_def get_phases_def Let_def truthy_def notModified_def)
  show "sent st1 = sent st" using pool_get_record[of e st filePath0] gr by (simp add: pool_def)
next
  assume a: "(hashPromise (heap st1 r) \<noteq> None \<or> transformPromise (heap st1 r) = None) \<and>
          doHash e st1 r = (st2, Fulfilled (resolveMap, worker)) \<and>
          fullHash (heap st2 r) = Some h"
  then have dh: "doHash e st1 r = (st2, Fulfilled (resolveMap, worker))"
    and fh: "fullHash (heap st2 r) = Some h" by simp_all
  have s1: "sent st1 = sent st" using pool_get_record[of e st filePath0] gr by (simp add: pool_def)
  have q: "quiet st1 st2" using quiet_doHash[of st1 e r] dh by simp
  have g: "get e st filePath0 (Some h)
             = get_phases e st1 (barePath filePath0) (storeKey filePath0) r (Some h)"
    using gr by (simp add: get_def)
  show "case get e st filePath0 (Some h) of
               (st', out) \<Rightarrow>
                 out = Fulfilled (Some \<lparr>source_out = None, sourceMap_out = None, hash_out = Some h,
                                         isGlobalCache_out = isGlobalCache (heap st2 r)\<rparr>) \<and>
                 (\<exists>ms. sent st' = sent st @ ms \<and> list_all (\<lambda>x. \<not> isTransformMessage x) ms) \<and>
                 (hashPromise (heap st1 r) = None \<longrightarrow>
                    (case worker of
                       None \<Rightarrow> workers st' = workers st2 \<and> transformQueue st' = transformQueue st2
                     | Some w \<Rightarrow>
                         workers st' = workers (freeWorker st2 w) \<and>
                         transformQueue st' = transformQueue (freeWorker st2 w) \<and>
                         resumed st' = resumed (freeWorker st2 w)))"
  proof (cases "hashPromise (heap st1 r)")
    case (Some hp)
    with dh have e2: "st2 = st1" "hp = Fulfilled (resolveMap, worker)"
      by (simp_all add: doHash_def)
    show ?thesis
      using Some e2 fh h s1
      by (simp add: g get_phases_def Let_def truthy_def notModified_def)
  next
    case None
    with a have tn: "transformPromise (heap st1 r) = None" by simp
    let ?st3 = "case worker of Some w \<Rightarrow> freeWorker st2 w | None \<Rightarrow> st2"
    have gi: "get_idle e st1 r (Some h)
                = (?st3, Fulfilled (Some (notModified (Some h) (heap st2 r))))"
      by (rule get_idle_match[OF dh fh h])
    have s3: "sent ?st3 = sent st2" by (simp split: option.splits)
    obtain st4 p where rf: "refresh e ?st3 (barePath filePath0) r = (st4, p)"
      by (cases "refresh e ?st3 (barePath filePath0) r")
    have fr: "sent st4 = sent ?st3" "workers st4 = workers ?st3"
      "transformQueue st4 = transformQueue ?st3" "resumed st4 = resumed ?st3"
      using pool_refresh[of e ?st3 "barePath filePath0" r] rf by (simp_all add: pool_def)
    show ?thesis
      using None tn gi rf fr s3 s1 q
      by (auto simp: g get_phases_def Let_def notModified_def quiet_def split: option.splits)
  qed
qed

theorem get_not_modified_witness:
  "''md5:import bmd5:b/pub/b.js'' \<noteq> [] \<and>
   get_record demoEnv (demoWith (\<lambda>x. x\<lparr>originalSource := Some ''import b''\<rparr>)) ''/pub/a.js''
     = (demoWith (\<lambda>x. x\<lparr>originalSource := Some ''import b''\<rparr>), Fulfilled (RecordRef 0)) \<and>
   transformPromise (heap (demoWith (\<lambda>x. x\<lparr>originalSource := Some ''import b''\<rparr>)) 0) = None \<and>
   snd (doHash demoEnv (demoWith (\<lambda>x. x\<lparr>originalSource := Some ''import b''\<rparr>)) 0)
     = Fulfilled (Some \<lparr>props = [''b'' \<mapsto> Some ''./b.js''], protoNull = False\<rparr>, Some 0) \<and>
   fullHash (heap (fst (doHash demoEnv (demoWith (\<lambda>x. x\<lparr>originalSource := Some ''import b''\<rparr>)) 0)) 0)
     = Some ''md5:import bmd5:b/pub/b.js'' \<and>
   snd (get demoEnv (demoWith (\<lambda>x. x\<lparr>originalSource := Some ''import b''\<rparr>)) ''/pub/a.js''
          (Some ''md5:import bmd5:b/pub/b.js''))
     = Fulfilled (Some \<lparr>source_out = None, sourceMap_out = None,
         hash_out = Some ''md5:import bmd5:b/pub/b.js'', isGlobalCache_out = False\<rparr>) \<and>
   workers (fst (get demoEnv (demoWith (\<lambda>x. x\<lparr>originalSource := Some ''import b''\<rparr>)) ''/pub/a.js''
          (Some ''md5:import bmd5:b/pub/b.js''))) = [idleWorker, idleWorker]"
proof -
  let ?st = "demoWith (\<lambda>x. x\<lparr>originalSource := Some ''import b''\<rparr>)"
  let ?h = "''md5:import bmd5:b/pub/b.js''"
  have h: "?h \<noteq> []" by simp
  have gr: "get_record demoEnv ?st ''/pub/a.js'' = (?st, Fulfilled (RecordRef 0))"
    by (simp add: eval_defs demo_defs)
  have tp: "transformPromise (heap ?st 0) = None" "hashPromise (heap ?st 0) = None"
    by (simp_all add: demo_defs)
  have dh: "snd (doHash demoEnv ?st 0) = Fulfilled (Some \<lparr>props = [''b'' \<mapsto> Some ''./b.js''], protoNull = False\<rparr>, Some 0)"
    by (simp add: eval_defs demo_defs)
  have fh: "fullHash (heap (fst (doHash demoEnv ?st 0)) 0) = Some ?h"
    by (simp add: eval_defs demo_defs)
  have ig: "isGlobalCache (heap (fst (doHash demoEnv ?st 0)) 0) = False"
    by (simp add: eval_defs demo_defs)
  have fw: "workers (freeWorker (fst (doHash demoEnv ?st 0)) 0) = [idleWorker, idleWorker]"
    by (simp add: eval_defs demo_defs)
  have dh2: "doHash demoEnv ?st 0
               = (fst (doHash demoEnv ?st 0), Fulfilled (Some \<lparr>props = [''b'' \<mapsto> Some ''./b.js''], protoNull = False\<rparr>, Some 0))"
    using dh by (simp add: prod_eq_iff)
  from get_not_modified[OF h gr, of "fst (doHash demoEnv ?st 0)" "Some \<lparr>props = [''b'' \<mapsto> Some ''./b.js''], protoNull = False\<rparr>" "Some 0"]
  have "case get demoEnv ?st ''/pub/a.js'' (Some ?h) of
          (st', out) \<Rightarrow>
            out = Fulfilled (Some \<lparr>source_out = None, sourceMap_out = None, hash_out = Some ?h,
                                    isGlobalCache_out = False\<rparr>) \<and>
            workers st' = [idleWorker, idleWorker]"
    using tp dh2 fh ig fw by (auto split: prod.splits)
  then show ?thesis
    using h gr tp dh fh by (auto split: prod.splits)
qed

section \<open>The transform phase\<close>

lemma doTransform_send_state:
  assumes wl: "w < length (workers st)"
  shows "case doTransform_send e st r resolveMap w igc of
           (st', out) \<Rightarrow>
             sent st' = sent st @ [(w, transformMessage (heap st r) resolveMap)] \<and>
             transformPromise (heap st' r) = None \<and>
             workers st' ! w =
               \<lparr>record_w = (case transformQueue st of [] \<Rightarrow> None | x # q \<Rightarrow> Some x),
                msgResolve = None, msgReject = None\<rparr> \<and>
             transformQueue st' = tl (transformQueue st) \<and>
             (case workerReply e (sent st') w of
                ErrorReply d \<Rightarrow> out = Rejected (transformError d)
              | DataReply d \<Rightarrow>
                  source (heap st' r) = source_of d \<and> sourceMap (heap st' r) = sourceMap_of d \<and>
                  (case igc of
                     Fulfilled g \<Rightarrow> out = Fulfilled () \<and> isGlobalCache (heap st' r) = g
                   | Rejected err \<Rightarrow> out = Rejected err
                   | Pending \<Rightarrow> out = Pending))"
proof (cases "workerReply e (sent st @ [(w, transformMessage (heap st r) resolveMap)]) w")
  case (ErrorReply d)
  then show ?thesis
    using wl
    by (cases "transformQueue st")
       (simp_all add: doTransform_send_def freeWorker_def await_reply_def upd_defs Let_def)
next
  case (DataReply d)
  then show ?thesis
    using wl
    by (cases "transformQueue st"; cases igc)
       (simp_all add: doTransform_send_def freeWorker_def await_reply_def upd_defs Let_def)
qed

lemma doTransform_with_worker:
  assumes tp: "transformPromise (heap st r) = None"
    and nj: "\<not> endsWith (path (heap st r)) ''.json''"
    and nd: "dew (heap st r) \<or> (\<exists>x xs. deps (heap st r) = Some (x # xs))"
  shows "doTransform e st r resolveMap (Some w)
           = doTransform_send e st r resolveMap w (isGlobalCache_m e (path (heap st r)))"
  using assms by (auto simp: doTransform_def Let_def)

lemma doTransform_without_worker:
  assumes tp: "transformPromise (heap st r) = None"
    and nj: "\<not> endsWith (path (heap st r)) ''.json''"
    and nd: "dew (heap st r) \<or> (\<exists>x xs. deps (heap st r) = Some (x # xs))"
    and aw: "assignWorker e st r = (st1, Fulfilled w)"
  shows "doTransform e st r resolveMap None
           = doTransform_send e st1 r resolveMap w (isGlobalCache_m e (path (heap st r)))"
  using assms by (auto simp: doTransform_def Let_def)

text \<open>
  Claim C9. Take a record with no transform in place that is not a JSON file and not a
  module without dependencies, and a worker: the one passed in, or the first idle one if
  none is passed and it acknowledges the source. Then \<open>doTransform\<close> sends the transform
  message to that worker, and whatever the reply, data or error, and whether or not the
  probe of the global cache fails, at the end the transform promise of the record is
  cleared and the worker is freed: its reply slot is empty and it is idle, or bound to the
  oldest waiter if there is one. An error reply rejects the phase with \<open>ETRANSFORM\<close>; a
  data reply sets source and source map.
\<close>

theorem doTransform_frees_worker:
  assumes tp: "transformPromise (heap st r) = None"
    and nj: "\<not> endsWith (path (heap st r)) ''.json''"
    and nd: "dew (heap st r) \<or> (\<exists>x xs. deps (heap st r) = Some (x # xs))"
    and wk: "(worker = Some w \<and> w < length (workers st)) \<or>
             (worker = None \<and> findFree (workers st) 0 = Some w \<and>
              workerReply e (sent st @ [(w, sourceMessage e st r)]) w = DataReply a)"
  shows "case doTransform e st r resolveMap worker of
           (st', out) \<Rightarrow>
             (\<exists>pre. sent st' = pre @ [(w, transformMessage (heap st r) resolveMap)]) \<and>
             transformPromise (heap st' r) = None \<and>
             workers st' ! w =
               \<lparr>record_w = (case transformQueue st of [] \<Rightarrow> None | x # q \<Rightarrow> Some x),
                msgResolve = None, msgReject = None\<rparr> \<and>
             transformQueue st' = tl (transformQueue st) \<and>
             (case workerReply e (sent st') w of
                ErrorReply d \<Rightarrow> out = Rejected (transformError d)
              | DataReply d \<Rightarrow>
                  source (heap st' r) = source_of d \<and> sourceMap (heap st' r) = sourceMap_of d \<and>
                  (case isGlobalCache_m e (path (heap st r)) of
                     Fulfilled g \<Rightarrow> out = Fulfilled () \<and> isGlobalCache (heap st' r) = g
                   | Rejected err \<Rightarrow> out = Rejected err
                   | Pending \<Rightarrow> out = Pending))"
  using wk
proof
  assume a: "worker = Some w \<and> w < length (workers st)"
  then have wl: "w < length (workers st)" by simp
  show ?thesis
    using doTransform_send_state[OF wl, where e = e and r = r and resolveMap = resolveMap
          and igc = "isGlobalCache_m e (path (heap st r))"]
      doTransform_with_worker[OF tp nj nd, where e = e and resolveMap = resolveMap and w = w] a
    by (auto split: prod.splits)
next
  assume a: "worker = None \<and> findFree (workers st) 0 = Some w \<and>
              workerReply e (sent st @ [(w, sourceMessage e st r)]) w = DataReply a"
  then have ff: "findFree (workers st) 0 = Some w"
    and ack: "workerReply e (sent st @ [(w, sourceMessage e st r)]) w = DataReply a"
    by simp_all
  from findFree_Some[OF ff] have wl: "w < length (workers st)" by simp
  from assignWorker_idle[OF ff ack] obtain st1 where
    aw: "assignWorker e st r = (st1, Fulfilled w)" and hp: "heap st1 = heap st"
    and tq: "transformQueue st1 = transformQueue st"
    and ln: "length (workers st1) = length (workers st)"
    and sn: "sent st1 = sent st @ [(w, sourceMessage e st r)]"
    by blast
  have wl1: "w < length (workers st1)" using wl ln by simp
  show ?thesis
    using doTransform_send_state[OF wl1, where e = e and r = r and resolveMap = resolveMap
          and igc = "isGlobalCache_m e (path (heap st r))"]
      doTransform_without_worker[OF tp nj nd aw, where resolveMap = resolveMap] a hp tq sn
    by (auto split: prod.splits)
qed

theorem doTransform_frees_worker_witness:
  "transformPromise (heap (demoWith (\<lambda>x. x\<lparr>originalSource := Some ''import b'', deps := Some [''b'']\<rparr>)) 0) = None \<and>
   \<not> endsWith (path (heap (demoWith (\<lambda>x. x\<lparr>originalSource := Some ''import b'', deps := Some [''b'']\<rparr>)) 0)) ''.json'' \<and>
   deps (heap (demoWith (\<lambda>x. x\<lparr>originalSource := Some ''import b'', deps := Some [''b'']\<rparr>)) 0) = Some [''b''] \<and>
   (0::nat) < length (workers (demoWith (\<lambda>x. x\<lparr>originalSource := Some ''import b'', deps := Some [''b'']\<rparr>))) \<and>
   snd (doTransform (demoEnv\<lparr>workerReply := (\<lambda>lg i. ErrorReply ''boom'')\<rparr>)
          (demoWith (\<lambda>x. x\<lparr>originalSource := Some ''import b'', deps := Some [''b'']\<rparr>)) 0
          (Some \<lparr>props = [''b'' \<mapsto> Some ''./b.js''], protoNull = False\<rparr>) (Some 0))
     = Rejected (transformError ''boom'') \<and>
   transformPromise (heap (fst (doTransform (demoEnv\<lparr>workerReply := (\<lambda>lg i. ErrorReply ''boom'')\<rparr>)
          (demoWith (\<lambda>x. x\<lparr>originalSource := Some ''import b'', deps := Some [''b'']\<rparr>)) 0
          (Some \<lparr>props = [''b'' \<mapsto> Some ''./b.js''], protoNull = False\<rparr>) (Some 0))) 0) = None \<and>
   workers (fst (doTransform (demoEnv\<lparr>workerReply := (\<lambda>lg i. ErrorReply ''boom'')\<rparr>)
          (demoWith (\<lambda>x. x\<lparr>originalSource := Some ''import b'', deps := Some [''b'']\<rparr>)) 0
          (Some \<lparr>props = [''b'' \<mapsto> Some ''./b.js''], protoNull = False\<rparr>) (Some 0))) ! 0 = idleWorker \<and>
   snd (doTransform demoEnv
          (demoWith (\<lambda>x. x\<lparr>originalSource := Some ''import b'', deps := Some [''b'']\<rparr>)) 0
          (Some \<lparr>props = [''b'' \<mapsto> Some ''./b.js''], protoNull = False\<rparr>) (Some 0))
     = Fulfilled () \<and>
   transformPromise (heap (fst (doTransform demoEnv
          (demoWith (\<lambda>x. x\<lparr>originalSource := Some ''import b'', deps := Some [''b'']\<rparr>)) 0
          (Some \<lparr>props = [''b'' \<mapsto> Some ''./b.js''], protoNull = False\<rparr>) (Some 0))) 0) = None \<and>
   workers (fst (doTransform demoEnv
          (demoWith (\<lambda>x. x\<lparr>originalSource := Some ''import b'', deps := Some [''b'']\<rparr>)) 0
          (Some \<lparr>props = [''b'' \<mapsto> Some ''./b.js''], protoNull = False\<rparr>) (Some 0))) ! 0 = idleWorker"
proof -
  let ?st = "demoWith (\<lambda>x. x\<lparr>originalSource := Some ''import b'', deps := Some [''b'']\<rparr>)"
  let ?bad = "demoEnv\<lparr>workerReply := (\<lambda>lg i. ErrorReply ''boom'')\<rparr>"
  let ?m = "Some \<lparr>props = [''b'' \<mapsto> Some ''./b.js''], protoNull = False\<rparr>"
  have tp: "transformPromise (heap ?st 0) = None"
    and nj: "\<not> endsWith (path (heap ?st 0)) ''.json''"
    and ds: "deps (heap ?st 0) = Some [''b'']"
    and wl: "(0::nat) < length (workers ?st)"
    and tq: "transformQueue ?st = []"
    by (simp_all add: demo_defs)
  have nd: "dew (heap ?st 0) \<or> (\<exists>x xs. deps (heap ?st 0) = Some (x # xs))"
    using ds by simp
  have wk: "(Some 0 = Some (0::nat) \<and> (0::nat) < length (workers ?st)) \<or>
            (Some 0 = None \<and> findFree (workers ?st) 0 = Some (0::nat) \<and>
             workerReply e0 (sent ?st @ [(0, sourceMessage e0 ?st 0)]) 0 = DataReply (ReplyData None None None))"
    for e0 using wl by simp
  have rb: "workerReply ?bad lg 0 = ErrorReply ''boom''" for lg by simp
  have rg: "workerReply demoEnv (pre @ [(0, transformMessage (heap ?st 0) ?m)]) 0
              = DataReply (ReplyData None (Some ''out'') (Some ''map''))" for pre
    by (simp add: demo_defs transformMessage_def)
  have ig: "isGlobalCache_m demoEnv (path (heap ?st 0)) = Fulfilled False"
    by (simp add: isGlobalCache_m_def demo_defs)
  have a: "snd (doTransform ?bad ?st 0 ?m (Some 0)) = Rejected (transformError ''boom'') \<and>
           transformPromise (heap (fst (doTransform ?bad ?st 0 ?m (Some 0))) 0) = None \<and>
           workers (fst (doTransform ?bad ?st 0 ?m (Some 0))) ! 0 = idleWorker"
    using doTransform_frees_worker[OF tp nj nd wk, where e = ?bad and resolveMap = ?m] tq rb
    by (auto simp: idleWorker_def split: prod.splits)
  have b: "snd (doTransform demoEnv ?st 0 ?m (Some 0)) = Fulfilled () \<and>
           transformPromise (heap (fst (doTransform demoEnv ?st 0 ?m (Some 0))) 0) = None \<and>
           workers (fst (doTransform demoEnv ?st 0 ?m (Some 0))) ! 0 = idleWorker"
    using doTransform_frees_worker[OF tp nj nd wk, where e = demoEnv and resolveMap = ?m] tq rg ig
    by (auto simp: idleWorker_def split: prod.splits)
  show ?thesis using tp nj ds wl a b by simp
qed

section \<open>Modification times\<close>

text \<open>
  Claim C6. \<open>getMtime\<close> builds a promise that is resolved with \<open>-1\<close> when \<open>fs.stat\<close> fails
  with \<open>ENOENT\<close> or \<open>EACCES\<close> and with \<open>mtimeMs\<close> when it succeeds, awaits it and returns
  nothing: the value never reaches the caller, who gets \<open>undefined\<close>. Only the rejection
  for another error is passed on.
\<close>

theorem getMtime_returns_undefined:
  "statPromise (e\<lparr>stat := \<lambda>p. Inr t\<rparr>) fp = Fulfilled t \<and>
   getMtime (e\<lparr>stat := \<lambda>p. Inr t\<rparr>) fp = Fulfilled None \<and>
   statPromise (e\<lparr>stat := \<lambda>p. Inl \<lparr>message = m, code = Some ''ENOENT''\<rparr>\<rparr>) fp = Fulfilled (- 1) \<and>
   getMtime (e\<lparr>stat := \<lambda>p. Inl \<lparr>message = m, code = Some ''ENOENT''\<rparr>\<rparr>) fp = Fulfilled None \<and>
   getMtime (e\<lparr>stat := \<lambda>p. Inl \<lparr>message = m, code = Some ''EIO''\<rparr>\<rparr>) fp
     = Rejected \<lparr>message = m, code = Some ''EIO''\<rparr>"
  by (simp add: getMtime_def statPromise_def)

section \<open>The first request for a path\<close>

text \<open>
  Claim C5, as the code has it. On the first request for a path of the module variant,
  the format the resolver gives decides: for \<open>esm\<close> a record is allocated, watched and
  read, and the handle stored is the outcome of that; for \<open>json\<close> and \<open>cjs\<close> the handle
  stored gives \<open>null\<close> and the request returns nothing; for any other format, or none, the
  request fails with an error that carries no code and whose message is
  \<open>Unable to transform module format\<close> followed by the format, or by \<open>unknown\<close>, and the
  handle stored is rejected with that error.
\<close>

theorem first_get_by_format:
  assumes nd: "\<not> isDewPath fp"
    and fresh: "records st fp = None \<or> records st fp = Some (Fulfilled VUndefined)"
    and fmt: "jspmFormat e fp False = Inr format"
  shows "(format = Some ''esm'' \<longrightarrow>
            get_record e st fp =
              (case createRecord_alloc e st fp False of
                 (s, p) \<Rightarrow> (s\<lparr>records := (records s)(fp \<mapsto> p)\<rparr>, p)) \<and>
            nextRef (fst (get_record e st fp)) = Suc (nextRef st)) \<and>
         (format = Some ''json'' \<or> format = Some ''cjs'' \<longrightarrow>
            get e st fp hash = (st\<lparr>records := (records st)(fp \<mapsto> Fulfilled VNull)\<rparr>, Fulfilled None)) \<and>
         (format \<noteq> Some ''esm'' \<and> format \<noteq> Some ''json'' \<and> format \<noteq> Some ''cjs'' \<longrightarrow>
            get e st fp hash =
              (st\<lparr>records := (records st)(fp \<mapsto> Rejected
                   \<lparr>message = ''Unable to transform module format ''
                      @ (if truthy format then templ format else ''unknown'') @ ''.'',
                    code = None\<rparr>)\<rparr>,
               Rejected
                   \<lparr>message = ''Unable to transform module format ''
                      @ (if truthy format then templ format else ''unknown'') @ ''.'',
                    code = None\<rparr>))"
proof -
  have k: "storeKey fp = fp" "barePath fp = fp" using nd by (simp_all add: storeKey_def barePath_def)
  have nr: "nextRef (fst (createRecord_alloc e st fp False)) = Suc (nextRef st)"
  proof -
    let ?st1 = "st\<lparr>heap := (heap st)(nextRef st := newRecord e fp False), nextRef := Suc (nextRef st)\<rparr>"
    have w: "nextRef (fst (watch e ?st1 (nextRef st))) = Suc (nextRef st)"
      by (simp add: watch_def Let_def split: promise.splits option.splits)
    obtain st2 x where a: "watch e ?st1 (nextRef st) = (st2, x)"
      by (cases "watch e ?st1 (nextRef st)")
    with w have "nextRef st2 = Suc (nextRef st)" by simp
    then show ?thesis
      by (simp add: createRecord_alloc_def a Let_def split: sum.splits option.splits)
  qed
  have gr: "get_record e st fp =
              (case createRecord e st fp False of
                 (s, p) \<Rightarrow> (s\<lparr>records := (records s)(fp \<mapsto> p)\<rparr>, p))"
    using fresh nd by (auto simp: get_record_def k)
  show ?thesis
    using fmt nd nr
    by (auto simp: get_def gr createRecord_def split: prod.splits)
qed

theorem first_get_by_format_witness:
  "\<not> isDewPath ''/pub/a.css'' \<and> records demoCache ''/pub/a.css'' = None \<and>
   jspmFormat demoEnv ''/pub/a.css'' False = Inr None \<and>
   snd (get demoEnv demoCache ''/pub/a.css'' None)
     = Rejected \<lparr>message = ''Unable to transform module format unknown.'', code = None\<rparr> \<and>
   \<not> isDewPath ''/pub/a.json'' \<and> records demoCache ''/pub/a.json'' = None \<and>
   jspmFormat demoEnv ''/pub/a.json'' False = Inr (Some ''json'') \<and>
   snd (get demoEnv demoCache ''/pub/a.json'' None) = Fulfilled None \<and>
   records (fst (get demoEnv demoCache ''/pub/a.json'' None)) ''/pub/a.json'' = Some (Fulfilled VNull) \<and>
   \<not> isDewPath ''/pub/a.js'' \<and> records demoCache ''/pub/a.js'' = None \<and>
   jspmFormat demoEnv ''/pub/a.js'' False = Inr (Some ''esm'') \<and>
   nextRef (fst (get_record demoEnv demoCache ''/pub/a.js'')) = Suc (nextRef demoCache)"
proof -
  have a: "\<not> isDewPath ''/pub/a.css''" "\<not> isDewPath ''/pub/a.json''" "\<not> isDewPath ''/pub/a.js''"
    by (simp_all add: isDewPath_def endsWith_def)
  have b: "records demoCache ''/pub/a.css'' = None" "records demoCache ''/pub/a.json'' = None"
    "records demoCache ''/pub/a.js'' = None"
    by (simp_all add: demo_defs)
  have c: "jspmFormat demoEnv ''/pub/a.css'' False = Inr None"
    "jspmFormat demoEnv ''/pub/a.json'' False = Inr (Some ''json'')"
    "jspmFormat demoEnv ''/pub/a.js'' False = Inr (Some ''esm'')"
    by (simp_all add: demo_defs)
  have f: "records demoCache fp = None \<or> records demoCache fp = Some (Fulfilled VUndefined)" for fp
    by (simp add: demo_defs)
  have n: "nextRef (fst (get_record demoEnv demoCache ''/pub/a.js'')) = Suc (nextRef demoCache)"
    using first_get_by_format[OF a(3) f c(3), of None] by blast
  have g1: "snd (get demoEnv demoCache ''/pub/a.css'' None)
     = Rejected \<lparr>message = ''Unable to transform module format unknown.'', code = None\<rparr>"
    using first_get_by_format[OF a(1) f c(1), of None] by (simp add: truthy_def)
  have g2: "snd (get demoEnv demoCache ''/pub/a.json'' None) = Fulfilled None \<and>
    records (fst (get demoEnv demoCache ''/pub/a.json'' None)) ''/pub/a.json'' = Some (Fulfilled VNull)"
    using first_get_by_format[OF a(2) f c(2), of None] by simp
  show ?thesis
    using a b c n g1 g2 by simp
qed

theorem unsupported_format_has_no_code:
  "snd (get demoEnv demoCache ''/pub/a.css'' None)
     = Rejected \<lparr>message = ''Unable to transform module format unknown.'', code = None\<rparr> \<and>
   \<not> (\<exists>err c. snd (get demoEnv demoCache ''/pub/a.css'' None) = Rejected err \<and> code err = Some c)"
proof -
  have "snd (get demoEnv demoCache ''/pub/a.css'' None)
     = Rejected \<lparr>message = ''Unable to transform module format unknown.'', code = None\<rparr>"
    by (simp add: eval_defs createRecord_def demo_defs)
  then show ?thesis by auto
qed

section \<open>Dependencies outside the public directory\<close>

lemma resolveDeps_outside:
  "list_all (depInside e pub p d) pre \<Longrightarrow>
   resolveDep e p d x = Inr (Some res, format) \<Longrightarrow> \<not> startsWith res pub \<Longrightarrow>
   resolveDeps e pub p d base (pre @ x # post) m h
     = Rejected (outsideError e pub p (relResolved e base res))"
proof (induction pre arbitrary: m h)
  case Nil
  then show ?case by simp
next
  case (Cons y pre)
  then show ?case
    by (auto simp: depInside_def split: sum.splits option.splits prod.splits)
qed

lemma doHash_analyze_idle:
  assumes ff: "findFree (workers st) 0 = Some w"
    and ack: "workerReply e (sent st @ [(w, sourceMessage e st r)]) w = DataReply a"
    and an: "workerReply e (sent st @ [(w, sourceMessage e st r), (w, analyzeMessage (heap st r))]) w
               = DataReply d"
  shows "\<exists>st1. doHash_analyze e st r h = (st1, Fulfilled (Some w)) \<and>
           heap st1 = (heap st)(r := (heap st r)\<lparr>originalSourceHash := Some h, deps := deps_of d\<rparr>) \<and>
           transformQueue st1 = transformQueue st \<and> publicDir st1 = publicDir st \<and>
           hashTimers st1 = hashTimers st \<and>
           length (workers st1) = length (workers st) \<and>
           record_w (workers st1 ! w) = Some r \<and>
           sent st1 = sent st @ [(w, sourceMessage e st r), (w, analyzeMessage (heap st r))]"
proof -
  let ?st0 = "updRecord st r (\<lambda>x. x\<lparr>originalSourceHash := Some h\<rparr>)"
  have ff0: "findFree (workers ?st0) 0 = Some w" using ff by simp
  have sm: "sourceMessage e ?st0 r = sourceMessage e st r"
    by (simp add: sourceMessage_def updRecord_def)
  have ack0: "workerReply e (sent ?st0 @ [(w, sourceMessage e ?st0 r)]) w = DataReply a"
    using ack sm by simp
  from assignWorker_idle[OF ff0 ack0] obtain st1 where
    aw: "assignWorker e ?st0 r = (st1, Fulfilled w)" and hp: "heap st1 = heap ?st0"
    and tq: "transformQueue st1 = transformQueue ?st0" and pd: "publicDir st1 = publicDir ?st0"
    and ht: "hashTimers st1 = hashTimers ?st0"
    and ln: "length (workers st1) = length (workers ?st0)"
    and rw: "record_w (workers st1 ! w) = Some r"
    and sn: "sent st1 = sent ?st0 @ [(w, sourceMessage e ?st0 r)]"
    by blast
  from findFree_Some[OF ff0] ln have wl: "w < length (workers st1)" by simp
  have am: "analyzeMessage (heap st1 r) = analyzeMessage (heap st r)"
    using hp by (simp add: analyzeMessage_def)
  show ?thesis
    using hp tq pd ht ln sn sm am an rw wl
    by (simp add: doHash_analyze_def aw Let_def await_reply_def updWorker_def)
qed

lemma doHash_reaches_resolve:
  assumes hp: "hashPromise (heap st r) = None"
    and src: "originalSource (heap st r) = Some src"
    and nj: "\<not> endsWith (path (heap st r)) ''.json''"
    and step: "(if originalSourceHash (heap st r) \<noteq> Some (md5 e src)
                then doHash_analyze e st r (md5 e src) else (st, Fulfilled None)) = (st1, Fulfilled w)"
  shows "doHash e st r =
           (case getResolveMap e st1 r of
              Rejected err \<Rightarrow>
                (updRecord (st1\<lparr>hashTimers := hashTimers st1 @ [r]\<rparr>) r
                   (\<lambda>x. x\<lparr>hashPromise := Some (Rejected err)\<rparr>), Rejected err)
            | Pending \<Rightarrow> (updRecord st1 r (\<lambda>x. x\<lparr>hashPromise := Some Pending\<rparr>), Pending)
            | Fulfilled (m, h) \<Rightarrow>
                (updRecord
                   ((updRecord st1 r (\<lambda>x. x\<lparr>fullHash := Some (md5 e src @ h)\<rparr>))
                      \<lparr>hashTimers := hashTimers st1 @ [r]\<rparr>) r
                   (\<lambda>x. x\<lparr>hashPromise := Some (Fulfilled (Some m, w))\<rparr>),
                 Fulfilled (Some m, w)))"
  using hp src nj step
  by (simp add: doHash_def doHash_body_def Let_def split: promise.splits prod.splits)

lemma record_same_deps:
  "originalSourceHash x = Some h \<Longrightarrow> deps x = Some ds \<Longrightarrow>
   x\<lparr>originalSourceHash := Some h, deps := Some ds\<rparr> = (x::FileTransformRecord)"
  by (cases x) simp

lemma analysed_step:
  assumes an: "analysed e st r src ds"
  shows "\<exists>st1 w. (if originalSourceHash (heap st r) \<noteq> Some (md5 e src)
                   then doHash_analyze e st r (md5 e src) else (st, Fulfilled None))
                  = (st1, Fulfilled w) \<and>
           heap st1 = (heap st)(r := (heap st r)\<lparr>originalSourceHash := Some (md5 e src), deps := Some ds\<rparr>) \<and>
           transformQueue st1 = transformQueue st \<and> publicDir st1 = publicDir st \<and>
           hashTimers st1 = hashTimers st \<and>
           length (workers st1) = length (workers st) \<and>
           (case w of
              None \<Rightarrow> originalSourceHash (heap st r) = Some (md5 e src) \<and> st1 = st
            | Some i \<Rightarrow>
                originalSourceHash (heap st r) \<noteq> Some (md5 e src) \<and>
                findFree (workers st) 0 = Some i \<and>
                record_w (workers st1 ! i) = Some r \<and>
                sent st1 = sent st @ [(i, sourceMessage e st r), (i, analyzeMessage (heap st r))])"
proof (cases "originalSourceHash (heap st r) = Some (md5 e src)")
  case True
  with an have d: "deps (heap st r) = Some ds" by (simp add: analysed_def)
  have "(heap st)(r := (heap st r)\<lparr>originalSourceHash := Some (md5 e src), deps := Some ds\<rparr>) = heap st"
    using record_same_deps[OF True d] by simp
  then show ?thesis using True by simp
next
  case False
  with an obtain i a d where ff: "findFree (workers st) 0 = Some i"
    and ack: "workerReply e (sent st @ [(i, sourceMessage e st r)]) i = DataReply a"
    and rep: "workerReply e (sent st @ [(i, sourceMessage e st r), (i, analyzeMessage (heap st r))]) i
               = DataReply d"
    and ds: "deps_of d = Some ds"
    by (auto simp: analysed_def split: option.splits reply.splits)
  from doHash_analyze_idle[OF ff ack rep, of "md5 e src"] obtain st1 where
    "doHash_analyze e st r (md5 e src) = (st1, Fulfilled (Some i))"
    "heap st1 = (heap st)(r := (heap st r)\<lparr>originalSourceHash := Some (md5 e src), deps := deps_of d\<rparr>)"
    "transformQueue st1 = transformQueue st" "publicDir st1 = publicDir st"
    "hashTimers st1 = hashTimers st" "length (workers st1) = length (workers st)"
    "record_w (workers st1 ! i) = Some r"
    "sent st1 = sent st @ [(i, sourceMessage e st r), (i, analyzeMessage (heap st r))]"
    by blast
  then show ?thesis using False ff ds by simp
qed

lemma getResolveMap_outside:
  assumes ds: "deps (heap st r) = Some (pre @ x # post)"
    and pre: "list_all (depInside e (publicDir st) (path (heap st r)) (dew (heap st r))) pre"
    and rd: "resolveDep e (path (heap st r)) (dew (heap st r)) x = Inr (Some res, format)"
    and out: "\<not> startsWith res (publicDir st)"
  shows "getResolveMap e st r
           = Rejected (outsideError e (publicDir st) (path (heap st r))
                         (relResolved e (dirname e (path (heap st r))) res))"
  using ds resolveDeps_outside[OF pre rd out]
  by (simp add: getResolveMap_def Let_def)

lemma doHash_outside:
  assumes hp: "hashPromise (heap st r) = None"
    and src: "originalSource (heap st r) = Some src"
    and nj: "\<not> endsWith (path (heap st r)) ''.json''"
    and an: "analysed e st r src (pre @ x # post)"
    and pre: "list_all (depInside e (publicDir st) (path (heap st r)) (dew (heap st r))) pre"
    and rd: "resolveDep e (path (heap st r)) (dew (heap st r)) x = Inr (Some res, format)"
    and out: "\<not> startsWith res (publicDir st)"
  shows "\<exists>st'. doHash e st r
            = (st', Rejected (outsideError e (publicDir st) (path (heap st r))
                         (relResolved e (dirname e (path (heap st r))) res))) \<and>
           hashPromise (heap st' r)
             = Some (Rejected (outsideError e (publicDir st) (path (heap st r))
                         (relResolved e (dirname e (path (heap st r))) res))) \<and>
           hashTimers st' = hashTimers st @ [r] \<and>
           transformPromise (heap st' r) = transformPromise (heap st r) \<and>
           path (heap st' r) = path (heap st r) \<and> dew (heap st' r) = dew (heap st r) \<and>
           publicDir st' = publicDir st \<and>
           originalSourceHash (heap st' r) = Some (md5 e src) \<and>
           transformQueue st' = transformQueue st \<and>
           (originalSourceHash (heap st r) \<noteq> Some (md5 e src) \<longrightarrow>
              (\<exists>i. findFree (workers st) 0 = Some i \<and> record_w (workers st' ! i) = Some r))"
proof -
  let ?E = "outsideError e (publicDir st) (path (heap st r))
                         (relResolved e (dirname e (path (heap st r))) res)"
  from analysed_step[OF an] obtain st1 w where
    step: "(if originalSourceHash (heap st r) \<noteq> Some (md5 e src)
            then doHash_analyze e st r (md5 e src) else (st, Fulfilled None)) = (st1, Fulfilled w)"
    and hp1: "heap st1 = (heap st)(r := (heap st r)\<lparr>originalSourceHash := Some (md5 e src),
                 deps := Some (pre @ x # post)\<rparr>)"
    and pd: "publicDir st1 = publicDir st" and ht: "hashTimers st1 = hashTimers st"
    and tq: "transformQueue st1 = transformQueue st"
    and w: "case w of
              None \<Rightarrow> originalSourceHash (heap st r) = Some (md5 e src) \<and> st1 = st
            | Some i \<Rightarrow>
                originalSourceHash (heap st r) \<noteq> Some (md5 e src) \<and>
                findFree (workers st) 0 = Some i \<and>
                record_w (workers st1 ! i) = Some r \<and>
                sent st1 = sent st @ [(i, sourceMessage e st r), (i, analyzeMessage (heap st r))]"
    by blast
  have g: "getResolveMap e st1 r = Rejected ?E"
    using getResolveMap_outside[of st1 r pre x post e res format] hp1 pd pre rd out by simp
  have lk: "originalSourceHash (heap st r) \<noteq> Some (md5 e src) \<longrightarrow>
              (\<exists>i. findFree (workers st) 0 = Some i \<and> record_w (workers st1 ! i) = Some r)"
    using w by (cases w) simp_all
  show ?thesis
    using doHash_reaches_resolve[OF hp src nj step] g hp1 pd ht tq lk by simp
qed

lemma get_phases_idle_snd:
  assumes "hashPromise (heap st r) = None" and "transformPromise (heap st r) = None"
  shows "snd (get_phases e st fp k r hash) = snd (get_idle e st r hash)"
  using assms by (simp add: get_phases_def Let_def split: prod.splits)

lemma get_idle_snd:
  assumes hp: "hashPromise (heap st r) = None" and tp: "transformPromise (heap st r) = None"
    and gr: "get_record e st0 fp = (st, Fulfilled (RecordRef r))"
  shows "snd (get e st0 fp hash) = snd (get_idle e st r hash)"
  using get_phases_idle_snd[OF hp tp] gr by (simp add: get_def)

text \<open>
  The failure for every record: take a record that is not a JSON file, with no hash phase
  and no transform in place, whose hash phase gets a list of dependencies in
  which \<open>x\<close> is the first that resolves to a path outside the public directory. Then the
  phase, and with it the request, fails with an error of code \<open>ETRANSFORM\<close> whose message
  names the path of \<open>x\<close> relative to the directory of the record. If the phase had to analyse
  the source, the worker it bound for that is still bound to the record when the request
  has failed, and the wait queue is as it was: nothing has freed the worker.
\<close>

lemma get_outside_keeps_worker:
  assumes hp: "hashPromise (heap st r) = None" and tp: "transformPromise (heap st r) = None"
    and src: "originalSource (heap st r) = Some src"
    and nj: "\<not> endsWith (path (heap st r)) ''.json''"
    and an: "analysed e st r src (pre @ x # post)"
    and pre: "list_all (depInside e (publicDir st) (path (heap st r)) (dew (heap st r))) pre"
    and rd: "resolveDep e (path (heap st r)) (dew (heap st r)) x = Inr (Some res, format)"
    and out: "\<not> startsWith res (publicDir st)"
  shows "snd (get_idle e st r hash)
           = Rejected \<lparr>message = ''Path '' @ replaceWinSep (relative e (publicDir st) (path (heap st r)))
               @ '' has a dependency '' @ relResolved e (dirname e (path (heap st r))) res
               @ '' outside of the public directory.'', code = Some ''ETRANSFORM''\<rparr> \<and>
         (get_record e st0 fp = (st, Fulfilled (RecordRef r)) \<longrightarrow>
            snd (get e st0 fp hash) = snd (get_idle e st r hash)) \<and>
         transformQueue (fst (get_idle e st r hash)) = transformQueue st \<and>
         (originalSourceHash (heap st r) \<noteq> Some (md5 e src) \<longrightarrow>
            (\<exists>i. findFree (workers st) 0 = Some i \<and>
                 record_w (workers (fst (get_idle e st r hash)) ! i) = Some r))"
proof -
  let ?E = "outsideError e (publicDir st) (path (heap st r))
               (relResolved e (dirname e (path (heap st r))) res)"
  from doHash_outside[OF hp src nj an pre rd out] obtain st' where
    dh: "doHash e st r = (st', Rejected ?E)"
    and tq: "transformQueue st' = transformQueue st"
    and lk: "originalSourceHash (heap st r) \<noteq> Some (md5 e src) \<longrightarrow>
              (\<exists>i. findFree (workers st) 0 = Some i \<and> record_w (workers st' ! i) = Some r)"
    by blast
  have gi: "get_idle e st r hash = (st', Rejected ?E)"
    using dh by (simp add: get_idle_def)
  have g2: "snd (get e st0 fp hash) = snd (get_idle e st r hash)"
    if "get_record e st0 fp = (st, Fulfilled (RecordRef r))"
    using get_idle_snd[OF hp tp that, of hash] .
  have m: "?E = \<lparr>message = ''Path '' @ replaceWinSep (relative e (publicDir st) (path (heap st r)))
               @ '' has a dependency '' @ relResolved e (dirname e (path (heap st r))) res
               @ '' outside of the public directory.'', code = Some ''ETRANSFORM''\<rparr>"
    by (simp add: outsideError_def transformError_def)
  show ?thesis
    using gi g2 m tq lk by simp
qed

text \<open>
  Claim C4, where the code departs from it. On a machine with one CPU, \<open>a.js\<close> imports \<open>c\<close>,
  which resolves outside the public directory. The request for \<open>a.js\<close> fails as the claim
  says, with code \<open>ETRANSFORM\<close> and a message that names \<open>../other/c.js\<close>. But the only worker,
  bound by the hash phase for the analysis, is still bound to the record. The cleanup timer
  of the hash phase fires, the file is rewritten to import \<open>b\<close>, which lies inside, and the
  watcher reports the change: the listener stores the new text and starts a hash phase,
  which waits in the queue for a worker. The next request for \<open>a.js\<close> waits with it, and so
  does one made after further requests and timers: no worker is ever freed.
\<close>

theorem outside_dependency_leaks_worker:
  "snd (get (soloEnv ''import c'') soloCache ''/pub/a.js'' None)
     = Rejected \<lparr>message = ''Path a.js has a dependency ../other/c.js outside of the public directory.'',
                 code = Some ''ETRANSFORM''\<rparr> \<and>
   workers (fst (get (soloEnv ''import c'') soloCache ''/pub/a.js'' None))
     = [\<lparr>record_w = Some 0, msgResolve = Some DepsHandler, msgReject = Some DepsHandler\<rparr>] \<and>
   originalSource (heap (run soloCache
          [(soloEnv ''import c'', Get ''/pub/a.js'' None), (soloEnv ''import c'', HashTimeout 0),
           (soloEnv ''import b'', WatchEvent 0 ''change'')]) 0) = Some ''import b'' \<and>
   workers (run soloCache
          [(soloEnv ''import c'', Get ''/pub/a.js'' None), (soloEnv ''import c'', HashTimeout 0),
           (soloEnv ''import b'', WatchEvent 0 ''change'')])
     = [\<lparr>record_w = Some 0, msgResolve = Some DepsHandler, msgReject = Some DepsHandler\<rparr>] \<and>
   transformQueue (run soloCache
          [(soloEnv ''import c'', Get ''/pub/a.js'' None), (soloEnv ''import c'', HashTimeout 0),
           (soloEnv ''import b'', WatchEvent 0 ''change'')]) = [0] \<and>
   snd (get (soloEnv ''import b'')
          (run soloCache
             [(soloEnv ''import c'', Get ''/pub/a.js'' None), (soloEnv ''import c'', HashTimeout 0),
              (soloEnv ''import b'', WatchEvent 0 ''change'')])
          ''/pub/a.js'' None) = Pending \<and>
   snd (get (soloEnv ''import b'')
          (run soloCache
             [(soloEnv ''import c'', Get ''/pub/a.js'' None), (soloEnv ''import c'', HashTimeout 0),
              (soloEnv ''import b'', WatchEvent 0 ''change''),
              (soloEnv ''import b'', Get ''/pub/a.js'' None),
              (soloEnv ''import b'', HashTimeout 0), (soloEnv ''import b'', IntervalTick)])
          ''/pub/a.js'' None) = Pending"
  by (simp add: run_def step_def onChange_def hashTimeout_def clearResolveCache_def
      createRecord_def createRecord_alloc_def watch_def outsideError_def transformError_def
      soloEnv_def soloCache_def eval_defs demo_defs)

text \<open>
  With a second worker the same course of events ends well: the request after the change
  is served by the worker that is left.
\<close>

lemma outside_dependency_spare_worker:
  "snd (get (demoEnv\<lparr>readFile := (\<lambda>p. Inr ''import b'')\<rparr>)
          (run demoCache
             [(demoEnv\<lparr>readFile := (\<lambda>p. Inr ''import c'')\<rparr>, Get ''/pub/a.js'' None),
              (demoEnv, HashTimeout 0),
              (demoEnv\<lparr>readFile := (\<lambda>p. Inr ''import b'')\<rparr>, WatchEvent 0 ''change'')])
          ''/pub/a.js'' None)
     = Fulfilled (Some \<lparr>source_out = Some ''out'', sourceMap_out = Some ''map'',
         hash_out = Some ''md5:import bmd5:b/pub/b.js'', isGlobalCache_out = False\<rparr>)"
  by (simp add: run_def step_def onChange_def hashTimeout_def
      createRecord_def createRecord_alloc_def watch_def outsideError_def transformError_def
      eval_defs demo_defs)

text \<open>
  A record that is not watched, here because the instance watches no file at all, never
  takes up the new text: \<open>getMtime\<close> gives \<open>undefined\<close>, which is what the record holds as
  its \<open>mtime\<close>, so the freshness check of \<open>get\<close> does not read the file again, and the
  request fails as before.
\<close>

lemma outside_dependency_unwatched:
  "snd (get (soloEnv ''import b'')
          (run (constructor (soloEnv ''import c'') ''/pub'' 500 0 False)
             [(soloEnv ''import c'', Get ''/pub/a.js'' None), (soloEnv ''import c'', HashTimeout 0)])
          ''/pub/a.js'' None)
     = Rejected \<lparr>message = ''Path a.js has a dependency ../other/c.js outside of the public directory.'',
                 code = Some ''ETRANSFORM''\<rparr>"
  by (simp add: run_def step_def onChange_def hashTimeout_def
      createRecord_def createRecord_alloc_def watch_def outsideError_def transformError_def
      soloEnv_def eval_defs demo_defs)

section \<open>JSON files\<close>

lemma touch_refl [simp]: "touch r st st"
  by (simp add: touch_def)


lemma touch_heap: "heap st' = heap st \<Longrightarrow> touch r st st'"
  by (simp add: touch_def)







lemma heap_get_result [simp]: "heap (fst (get_result x r)) = heap (fst x)"
  by (simp add: get_result_def split: prod.splits promise.splits)

lemma touch_get_result [simp]: "touch r st (fst (get_result x r')) = touch r st (fst x)"
  by (simp add: touch_def)



lemma touch_records [simp]: "touch r st (st'\<lparr>records := m\<rparr>) = touch r st st'"
  by (simp add: touch_def)


lemma touch_hashTimeout: "touch r st (hashTimeout st r)"
  by (simp add: hashTimeout_def touch_def)









lemma jsonSound_fields [simp]:
  "jsonSound H (rec\<lparr>watching := w\<rparr>) = jsonSound H rec"
  "jsonSound H (rec\<lparr>checkTime := c\<rparr>) = jsonSound H rec"
  "jsonSound H (rec\<lparr>isGlobalCache := g\<rparr>) = jsonSound H rec"
  "jsonSound H (rec\<lparr>originalSourceHash := o1\<rparr>) = jsonSound H rec"
  "jsonSound H (rec\<lparr>deps := d\<rparr>) = jsonSound H rec"
  by (simp_all add: jsonSound_def split: option.splits)























end
